theory Spec2Isabelle
  imports Main "HOL-Library.Word"
begin

unbundle bit_operations_syntax

section \<open>Atmega chip fuse detector: data\<close>

text \<open>
  The sketch runs on an AVR Arduino (it programs Timer 1 through \<open>TCCR1A\<close>), where
  \<open>byte\<close> has 8 bits, \<open>int\<close> and \<open>unsigned int\<close> have 16 and \<open>unsigned long\<close> has 32.
\<close>

type_synonym byte = "8 word"

definition CLOCKOUT :: byte where
  "CLOCKOUT = 9"

definition RESET :: byte where
  "RESET = 10"

definition SCK :: byte where
  "SCK = 13"

definition ENTER_PROGRAMMING_ATTEMPTS :: "16 word" where
  "ENTER_PROGRAMMING_ATTEMPTS = 50"

text \<open>Programming commands sent over SPI to the chip.\<close>

definition progamEnable :: byte where
  "progamEnable = 0xAC"

definition programAcknowledge :: byte where
  "programAcknowledge = 0x53"

definition readSignatureByte :: byte where
  "readSignatureByte = 0x30"

definition readCalibrationByte :: byte where
  "readCalibrationByte = 0x38"

definition readLowFuseByte :: byte where
  "readLowFuseByte = 0x50"

definition readLowFuseByteArg2 :: byte where
  "readLowFuseByteArg2 = 0x00"

definition readExtendedFuseByte :: byte where
  "readExtendedFuseByte = 0x50"

definition readExtendedFuseByteArg2 :: byte where
  "readExtendedFuseByteArg2 = 0x08"

definition readHighFuseByte :: byte where
  "readHighFuseByte = 0x58"

definition readHighFuseByteArg2 :: byte where
  "readHighFuseByteArg2 = 0x08"

definition readLockByte :: byte where
  "readLockByte = 0x58"

definition readLockByteArg2 :: byte where
  "readLockByteArg2 = 0x00"

definition readProgramMemory :: byte where
  "readProgramMemory = 0x20"

definition loadExtendedAddressByte :: byte where
  "loadExtendedAddressByte = 0x4D"

text \<open>The second enum: which fuse a byte is.\<close>

definition lowFuse :: byte where
  "lowFuse = 0"

definition highFuse :: byte where
  "highFuse = 1"

definition extFuse :: byte where
  "extFuse = 2"

definition lockByte :: byte where
  "lockByte = 3"

definition calibrationByte :: byte where
  "calibrationByte = 4"

record signatureType =
  sig :: "byte list"
  desc :: string
  flashSize :: "32 word"
  baseBootSize :: "16 word"
  pageSize :: "32 word"
  fuseWithBootloaderSize :: byte
  timedWrites :: byte

definition kb :: "32 word" where
  "kb = 1024"

definition NO_FUSE :: byte where
  "NO_FUSE = 0xFF"

text \<open>
  The signature table, entry by entry. A bootloader size written \<open>1 * kb\<close> is an
  \<open>unsigned long\<close> stored into the \<open>unsigned int\<close> field; \<open>timedWrites\<close> is 0 where the
  initialiser leaves it out.
\<close>

definition signatures :: "signatureType list" where
  "signatures = [
  \<lparr>sig = [0x1E, 0x91, 0x0B], desc = ''ATtiny24'', flashSize = 2 * kb, baseBootSize = 0,
    pageSize = 32, fuseWithBootloaderSize = NO_FUSE, timedWrites = 0\<rparr>,
  \<lparr>sig = [0x1E, 0x92, 0x07], desc = ''ATtiny44'', flashSize = 4 * kb, baseBootSize = 0,
    pageSize = 64, fuseWithBootloaderSize = NO_FUSE, timedWrites = 0\<rparr>,
  \<lparr>sig = [0x1E, 0x93, 0x0C], desc = ''ATtiny84'', flashSize = 8 * kb, baseBootSize = 0,
    pageSize = 64, fuseWithBootloaderSize = NO_FUSE, timedWrites = 0\<rparr>,
  \<lparr>sig = [0x1E, 0x91, 0x08], desc = ''ATtiny25'', flashSize = 2 * kb, baseBootSize = 0,
    pageSize = 32, fuseWithBootloaderSize = NO_FUSE, timedWrites = 0\<rparr>,
  \<lparr>sig = [0x1E, 0x92, 0x06], desc = ''ATtiny45'', flashSize = 4 * kb, baseBootSize = 0,
    pageSize = 64, fuseWithBootloaderSize = NO_FUSE, timedWrites = 0\<rparr>,
  \<lparr>sig = [0x1E, 0x93, 0x0B], desc = ''ATtiny85'', flashSize = 8 * kb, baseBootSize = 0,
    pageSize = 64, fuseWithBootloaderSize = NO_FUSE, timedWrites = 0\<rparr>,
  \<lparr>sig = [0x1E, 0x92, 0x0A], desc = ''ATmega48PA'', flashSize = 4 * kb, baseBootSize = 0,
    pageSize = 64, fuseWithBootloaderSize = NO_FUSE, timedWrites = 0\<rparr>,
  \<lparr>sig = [0x1E, 0x93, 0x0F], desc = ''ATmega88PA'', flashSize = 8 * kb, baseBootSize = 256,
    pageSize = 128, fuseWithBootloaderSize = extFuse, timedWrites = 0\<rparr>,
  \<lparr>sig = [0x1E, 0x94, 0x0B], desc = ''ATmega168PA'', flashSize = 16 * kb, baseBootSize = 256,
    pageSize = 128, fuseWithBootloaderSize = extFuse, timedWrites = 0\<rparr>,
  \<lparr>sig = [0x1E, 0x95, 0x0F], desc = ''ATmega328P'', flashSize = 32 * kb, baseBootSize = 512,
    pageSize = 128, fuseWithBootloaderSize = highFuse, timedWrites = 0\<rparr>,
  \<lparr>sig = [0x1E, 0x95, 0x14], desc = ''ATmega328'', flashSize = 32 * kb, baseBootSize = 512,
    pageSize = 128, fuseWithBootloaderSize = highFuse, timedWrites = 0\<rparr>,
  \<lparr>sig = [0x1E, 0x94, 0x0A], desc = ''ATmega164P'', flashSize = 16 * kb, baseBootSize = 256,
    pageSize = 128, fuseWithBootloaderSize = highFuse, timedWrites = 0\<rparr>,
  \<lparr>sig = [0x1E, 0x95, 0x08], desc = ''ATmega324P'', flashSize = 32 * kb, baseBootSize = 512,
    pageSize = 128, fuseWithBootloaderSize = highFuse, timedWrites = 0\<rparr>,
  \<lparr>sig = [0x1E, 0x96, 0x0A], desc = ''ATmega644P'', flashSize = 64 * kb, baseBootSize = ucast (1 * kb),
    pageSize = 256, fuseWithBootloaderSize = highFuse, timedWrites = 0\<rparr>,
  \<lparr>sig = [0x1E, 0x96, 0x08], desc = ''ATmega640'', flashSize = 64 * kb, baseBootSize = ucast (1 * kb),
    pageSize = 256, fuseWithBootloaderSize = highFuse, timedWrites = 0\<rparr>,
  \<lparr>sig = [0x1E, 0x97, 0x03], desc = ''ATmega1280'', flashSize = 128 * kb, baseBootSize = ucast (1 * kb),
    pageSize = 256, fuseWithBootloaderSize = highFuse, timedWrites = 0\<rparr>,
  \<lparr>sig = [0x1E, 0x97, 0x04], desc = ''ATmega1281'', flashSize = 128 * kb, baseBootSize = ucast (1 * kb),
    pageSize = 256, fuseWithBootloaderSize = highFuse, timedWrites = 0\<rparr>,
  \<lparr>sig = [0x1E, 0x98, 0x01], desc = ''ATmega2560'', flashSize = 256 * kb, baseBootSize = ucast (1 * kb),
    pageSize = 256, fuseWithBootloaderSize = highFuse, timedWrites = 0\<rparr>,
  \<lparr>sig = [0x1E, 0x98, 0x02], desc = ''ATmega2561'', flashSize = 256 * kb, baseBootSize = ucast (1 * kb),
    pageSize = 256, fuseWithBootloaderSize = highFuse, timedWrites = 0\<rparr>,
  \<lparr>sig = [0x1E, 0x93, 0x82], desc = ''At90USB82'', flashSize = 8 * kb, baseBootSize = 512,
    pageSize = 128, fuseWithBootloaderSize = highFuse, timedWrites = 0\<rparr>,
  \<lparr>sig = [0x1E, 0x94, 0x82], desc = ''At90USB162'', flashSize = 16 * kb, baseBootSize = 512,
    pageSize = 128, fuseWithBootloaderSize = highFuse, timedWrites = 0\<rparr>,
  \<lparr>sig = [0x1E, 0x93, 0x89], desc = ''ATmega8U2'', flashSize = 8 * kb, baseBootSize = 512,
    pageSize = 128, fuseWithBootloaderSize = highFuse, timedWrites = 0\<rparr>,
  \<lparr>sig = [0x1E, 0x94, 0x89], desc = ''ATmega16U2'', flashSize = 16 * kb, baseBootSize = 512,
    pageSize = 128, fuseWithBootloaderSize = highFuse, timedWrites = 0\<rparr>,
  \<lparr>sig = [0x1E, 0x95, 0x8A], desc = ''ATmega32U2'', flashSize = 32 * kb, baseBootSize = 512,
    pageSize = 128, fuseWithBootloaderSize = highFuse, timedWrites = 0\<rparr>,
  \<lparr>sig = [0x1E, 0x94, 0x88], desc = ''ATmega16U4'', flashSize = 16 * kb, baseBootSize = 512,
    pageSize = 128, fuseWithBootloaderSize = highFuse, timedWrites = 0\<rparr>,
  \<lparr>sig = [0x1E, 0x95, 0x87], desc = ''ATmega32U4'', flashSize = 32 * kb, baseBootSize = 512,
    pageSize = 128, fuseWithBootloaderSize = highFuse, timedWrites = 0\<rparr>,
  \<lparr>sig = [0x1E, 0x97, 0x05], desc = ''ATmega1284P'', flashSize = 128 * kb, baseBootSize = ucast (1 * kb),
    pageSize = 256, fuseWithBootloaderSize = highFuse, timedWrites = 0\<rparr>,
  \<lparr>sig = [0x1E, 0x91, 0x0A], desc = ''ATtiny2313A'', flashSize = 2 * kb, baseBootSize = 0,
    pageSize = 32, fuseWithBootloaderSize = NO_FUSE, timedWrites = 0\<rparr>,
  \<lparr>sig = [0x1E, 0x92, 0x0D], desc = ''ATtiny4313'', flashSize = 4 * kb, baseBootSize = 0,
    pageSize = 64, fuseWithBootloaderSize = NO_FUSE, timedWrites = 0\<rparr>,
  \<lparr>sig = [0x1E, 0x90, 0x07], desc = ''ATtiny13A'', flashSize = 1 * kb, baseBootSize = 0,
    pageSize = 32, fuseWithBootloaderSize = NO_FUSE, timedWrites = 0\<rparr>,
  \<lparr>sig = [0x1E, 0x93, 0x07], desc = ''ATmega8A'', flashSize = 8 * kb, baseBootSize = 256,
    pageSize = 64, fuseWithBootloaderSize = highFuse, timedWrites = 1\<rparr>
  ]"

text \<open>
  The known bootloaders: MD5 sum and name. The names are the contents of the \<open>PROGMEM\<close>
  strings the entries point to.
\<close>

record deviceDatabaseType =
  md5sum :: "byte list"
  filename :: string

definition deviceDatabase :: "deviceDatabaseType list" where
  "deviceDatabase = [
  \<lparr>md5sum = [0x0A, 0xAC, 0xF7, 0x16, 0xF4, 0x3C, 0xA2, 0xC9,
      0x27, 0x7E, 0x08, 0xB9, 0xD6, 0x90, 0xBC, 0x02], filename = ''ATmegaBOOT_168_atmega328''\<rparr>,
  \<lparr>md5sum = [0x27, 0xEB, 0x87, 0x14, 0x5D, 0x45, 0xD4, 0xD8,
      0x41, 0x44, 0x52, 0xCE, 0x0A, 0x2B, 0x8C, 0x5F], filename = ''ATmegaBOOT_168_atmega328_pro_8MHz''\<rparr>,
  \<lparr>md5sum = [0x01, 0x24, 0x13, 0x56, 0x60, 0x4D, 0x91, 0x7E,
      0xDC, 0xEE, 0x84, 0xD1, 0x19, 0xEF, 0x91, 0xCE], filename = ''ATmegaBOOT_168_atmega1280''\<rparr>,
  \<lparr>md5sum = [0x14, 0x61, 0xCE, 0xDF, 0x85, 0x46, 0x0D, 0x96,
      0xCC, 0x41, 0xCB, 0x01, 0x69, 0x40, 0x28, 0x1A], filename = ''ATmegaBOOT_168_diecimila''\<rparr>,
  \<lparr>md5sum = [0x6A, 0x22, 0x9F, 0xB4, 0x64, 0x37, 0x3F, 0xA3,
      0x0C, 0x68, 0x39, 0x1D, 0x6A, 0x97, 0x2C, 0x40], filename = ''ATmegaBOOT_168_ng''\<rparr>,
  \<lparr>md5sum = [0xFF, 0x99, 0xA2, 0xC0, 0xD9, 0xC9, 0xE5, 0x1B,
      0x98, 0x7D, 0x9E, 0x56, 0x12, 0xC2, 0xA4, 0xA1], filename = ''ATmegaBOOT_168_pro_8MHz''\<rparr>,
  \<lparr>md5sum = [0x98, 0x6D, 0xCF, 0xBB, 0x55, 0xE1, 0x22, 0x1E,
      0xE4, 0x3C, 0xC2, 0x07, 0xB2, 0x2B, 0x46, 0xAE], filename = ''ATmegaBOOT''\<rparr>,
  \<lparr>md5sum = [0x37, 0xC0, 0xFC, 0x90, 0xE2, 0xA0, 0x5D, 0x8F,
      0x62, 0xEB, 0xAE, 0x9C, 0x36, 0xC2, 0x24, 0x05], filename = ''ATmegaBOOT_168''\<rparr>,
  \<lparr>md5sum = [0x29, 0x3E, 0xB3, 0xB7, 0x39, 0x84, 0x2D, 0x35,
      0xBA, 0x9D, 0x02, 0xF9, 0xC7, 0xF7, 0xC9, 0xD6], filename = ''ATmegaBOOT_168_atmega328_bt''\<rparr>,
  \<lparr>md5sum = [0xFC, 0xAF, 0x05, 0x0E, 0xB4, 0xD7, 0x2D, 0x75,
      0x8F, 0x41, 0x8C, 0x85, 0x83, 0x56, 0xAA, 0x35], filename = ''LilyPadBOOT_168''\<rparr>,
  \<lparr>md5sum = [0x55, 0x71, 0xA1, 0x8C, 0x81, 0x3B, 0x9E, 0xD2,
      0xE6, 0x3B, 0xC9, 0x3B, 0x9A, 0xB1, 0x79, 0x53], filename = ''optiboot_atmega328_IDE_0022''\<rparr>,
  \<lparr>md5sum = [0x3C, 0x08, 0x90, 0xA1, 0x6A, 0x13, 0xA2, 0xF0,
      0xA5, 0x1D, 0x26, 0xEC, 0xF1, 0x4B, 0x0F, 0xB3], filename = ''optiboot_atmega328_pro_8MHz''\<rparr>,
  \<lparr>md5sum = [0xAD, 0xBD, 0xA7, 0x4A, 0x4F, 0xAB, 0xA8, 0x65,
      0x34, 0x92, 0xF8, 0xC9, 0xCE, 0x58, 0x7D, 0x78], filename = ''optiboot_lilypad''\<rparr>,
  \<lparr>md5sum = [0x7B, 0x5C, 0xAC, 0x08, 0x2A, 0x0B, 0x2D, 0x45,
      0x69, 0x11, 0xA7, 0xA0, 0xAE, 0x65, 0x7F, 0x66], filename = ''optiboot_luminet''\<rparr>,
  \<lparr>md5sum = [0x6A, 0x95, 0x0A, 0xE1, 0xDB, 0x1F, 0x9D, 0xC7,
      0x8C, 0xF8, 0xA4, 0x80, 0xB5, 0x1E, 0x54, 0xE1], filename = ''optiboot_pro_16MHz''\<rparr>,
  \<lparr>md5sum = [0x2C, 0x55, 0xB4, 0xB8, 0xB5, 0xC5, 0xCB, 0xC4,
      0xD3, 0x36, 0x99, 0xCB, 0x4B, 0x9F, 0xDA, 0xBE], filename = ''optiboot_pro_20mhz''\<rparr>,
  \<lparr>md5sum = [0x1E, 0x35, 0x14, 0x08, 0x1F, 0x65, 0x7F, 0x8C,
      0x96, 0x50, 0x69, 0x9F, 0x19, 0x1E, 0x3D, 0xF0], filename = ''stk500boot_v2_mega2560''\<rparr>,
  \<lparr>md5sum = [0xC2, 0x59, 0x71, 0x5F, 0x96, 0x28, 0xE3, 0xAA,
      0xB0, 0x69, 0xE2, 0xAF, 0xF0, 0x85, 0xA1, 0x20], filename = ''DiskLoader-Leonardo''\<rparr>,
  \<lparr>md5sum = [0xE4, 0xAF, 0xF6, 0x6B, 0x78, 0xDA, 0xE4, 0x30,
      0xFE, 0xB6, 0x52, 0xAF, 0x53, 0x52, 0x18, 0x49], filename = ''optiboot_atmega8''\<rparr>,
  \<lparr>md5sum = [0x3A, 0x89, 0x30, 0x4B, 0x15, 0xF5, 0xBB, 0x11,
      0xAA, 0xE6, 0xE6, 0xDC, 0x7C, 0xF5, 0x91, 0x35], filename = ''optiboot_atmega168''\<rparr>,
  \<lparr>md5sum = [0xFB, 0xF4, 0x9B, 0x7B, 0x59, 0x73, 0x7F, 0x65,
      0xE8, 0xD0, 0xF8, 0xA5, 0x08, 0x12, 0xE7, 0x9F], filename = ''optiboot_atmega328''\<rparr>,
  \<lparr>md5sum = [0x7F, 0xDF, 0xE1, 0xB2, 0x6F, 0x52, 0x8F, 0xBD,
      0x7C, 0xFE, 0x7E, 0xE0, 0x84, 0xC0, 0xA5, 0x6B], filename = ''optiboot_atmega328-Mini''\<rparr>,
  \<lparr>md5sum = [0x31, 0x28, 0x0B, 0x06, 0xAD, 0xB5, 0xA4, 0xC9,
      0x2D, 0xEF, 0xB3, 0x69, 0x29, 0x22, 0xEA, 0xBF], filename = ''ATmegaBOOT_324P''\<rparr>,
  \<lparr>md5sum = [0xE8, 0x93, 0x44, 0x43, 0x37, 0xD3, 0x28, 0x3C,
      0x7D, 0x9A, 0xEB, 0x84, 0x46, 0xD5, 0x45, 0x42], filename = ''ATmegaBOOT_644''\<rparr>,
  \<lparr>md5sum = [0x51, 0x69, 0x10, 0x40, 0x8F, 0x07, 0x81, 0xC6,
      0x48, 0x51, 0x54, 0x5E, 0x96, 0x73, 0xC2, 0xEB], filename = ''ATmegaBOOT_644P''\<rparr>,
  \<lparr>md5sum = [0xB9, 0x49, 0x93, 0x09, 0x49, 0x1A, 0x64, 0x6E,
      0xCD, 0x58, 0x47, 0x89, 0xC2, 0xD8, 0xA4, 0x6C], filename = ''Mega2560_Original''\<rparr>,
  \<lparr>md5sum = [0x71, 0xDD, 0xC2, 0x84, 0x64, 0xC4, 0x73, 0x27,
      0xD2, 0x33, 0x01, 0x1E, 0xFA, 0xE1, 0x24, 0x4B], filename = ''optiboot_atmega1284p''\<rparr>,
  \<lparr>md5sum = [0x0F, 0x02, 0x31, 0x72, 0x95, 0xC8, 0xF7, 0xFD,
      0x1B, 0xB7, 0x07, 0x17, 0x85, 0xA5, 0x66, 0x87], filename = ''Ruggeduino''\<rparr>,
  \<lparr>md5sum = [0x53, 0xE0, 0x2C, 0xBC, 0x87, 0xF5, 0x0B, 0x68,
      0x2C, 0x71, 0x13, 0xE0, 0xED, 0x84, 0x05, 0x34], filename = ''Leonardo-prod-firmware-2012-04-26''\<rparr>,
  \<lparr>md5sum = [0x12, 0xAA, 0x80, 0x07, 0x4D, 0x74, 0xE3, 0xDA,
      0xBF, 0x2D, 0x25, 0x84, 0x6D, 0x99, 0xF7, 0x20], filename = ''atmega2560_bootloader_watchdog_bug_fixed''\<rparr>,
  \<lparr>md5sum = [0x32, 0x56, 0xC1, 0xD3, 0xAC, 0x78, 0x32, 0x4D,
      0x04, 0x6D, 0x3F, 0x6D, 0x01, 0xEC, 0xAE, 0x09], filename = ''Esplora''\<rparr>,
  \<lparr>md5sum = [0x39, 0xCC, 0x80, 0xD6, 0xDE, 0xA2, 0xC4, 0x91,
      0x6F, 0xBC, 0xE8, 0xDD, 0x70, 0xF2, 0xA2, 0x33], filename = ''Sanguino_ATmegaBOOT_644P''\<rparr>,
  \<lparr>md5sum = [0x60, 0x49, 0xC6, 0x0A, 0xE6, 0x31, 0x5C, 0xC1,
      0xBA, 0xD7, 0x24, 0xEF, 0x8B, 0x6D, 0xE6, 0xD0], filename = ''Sanguino_ATmegaBOOT_168_atmega644p''\<rparr>,
  \<lparr>md5sum = [0xC1, 0x17, 0xE3, 0x5E, 0x9C, 0x43, 0x66, 0x5F,
      0x1E, 0x4C, 0x41, 0x95, 0x44, 0x60, 0x47, 0xD5], filename = ''Sanguino_ATmegaBOOT_168_atmega1284p''\<rparr>,
  \<lparr>md5sum = [0x27, 0x4B, 0x68, 0x8A, 0x8A, 0xA2, 0x4C, 0xE7,
      0x30, 0x7F, 0x97, 0x37, 0x87, 0x16, 0x4E, 0x21], filename = ''Sanguino_ATmegaBOOT_168_atmega1284p_8m''\<rparr>,
  \<lparr>md5sum = [0xD8, 0x8C, 0x70, 0x6D, 0xFE, 0x1F, 0xDC, 0x38,
      0x82, 0x1E, 0xCE, 0xAE, 0x23, 0xB2, 0xE6, 0xE7], filename = ''Arduino-dfu-usbserial-atmega16u2-Uno-Rev3''\<rparr>
  ]"

section \<open>State and the outside world\<close>

text \<open>
  What the sketch writes to the serial port: \<open>Serial.print\<close> of a string, of one
  character, of a number in a base, and the line end of \<open>Serial.println\<close>.
\<close>

datatype serial_out = PrintStr string | PrintChar char | PrintNum nat nat | Newline

text \<open>Pin writes, pin modes, delays and the set-up of the SPI unit, in the order issued.\<close>

datatype hw_event =
  DigitalWrite byte bool
  | PinMode byte
  | Delay nat
  | SPI_begin
  | SPI_setClockDivider nat

text \<open>
  The globals \<open>foundSig\<close>, \<open>lastAddressMSB\<close> and \<open>currentSignature\<close>, with three logs:
  the bytes sent over SPI, the pin events and the serial output.
\<close>

record sketch =
  foundSig :: int
  lastAddressMSB :: byte
  currentSignature :: signatureType
  sent :: "byte list"
  pins :: "hw_event list"
  serial :: "serial_out list"

text \<open>The globals as C initialises them; the logs start empty.\<close>

definition initial :: sketch where
  "initial = \<lparr>foundSig = -1, lastAddressMSB = 0,
     currentSignature = \<lparr>sig = [0, 0, 0], desc = [], flashSize = 0, baseBootSize = 0,
       pageSize = 0, fuseWithBootloaderSize = 0, timedWrites = 0\<rparr>,
     sent = [], pins = [], serial = []\<rparr>"

text \<open>
  The target chip is outside the program: \<open>rx n\<close> is the byte that comes back on
  transfer number \<open>n\<close> of the run (counted from 0), whatever the chip is.
\<close>

type_synonym target = "nat \<Rightarrow> byte"

definition SPI_transfer :: "target \<Rightarrow> byte \<Rightarrow> sketch \<Rightarrow> byte \<times> sketch" where
  "SPI_transfer rx b s = (rx (length (sent s)), s\<lparr>sent := sent s @ [b]\<rparr>)"

definition Serial_print :: "string \<Rightarrow> sketch \<Rightarrow> sketch" where
  "Serial_print str s = s\<lparr>serial := serial s @ [PrintStr str]\<rparr>"

definition Serial_newline :: "sketch \<Rightarrow> sketch" where
  "Serial_newline s = s\<lparr>serial := serial s @ [Newline]\<rparr>"

definition Serial_println :: "string \<Rightarrow> sketch \<Rightarrow> sketch" where
  "Serial_println str s = Serial_newline (Serial_print str s)"

definition Serial_printNum :: "nat \<Rightarrow> nat \<Rightarrow> sketch \<Rightarrow> sketch" where
  "Serial_printNum n base s = s\<lparr>serial := serial s @ [PrintNum n base]\<rparr>"

definition hardware :: "hw_event \<Rightarrow> sketch \<Rightarrow> sketch" where
  "hardware e s = s\<lparr>pins := pins s @ [e]\<rparr>"

text \<open>\<open>highByte\<close>, \<open>lowByte\<close> and \<open>bit\<close> of the Arduino core.\<close>

definition highByte :: "32 word \<Rightarrow> byte" where
  "highByte w = ucast (drop_bit 8 w)"

definition lowByte :: "32 word \<Rightarrow> byte" where
  "lowByte w = ucast (w AND 0xFF)"

definition bit_mask :: "nat \<Rightarrow> byte" where
  "bit_mask n = push_bit n 1"

section \<open>The functions of the sketch\<close>

text \<open>Prints a string up to its terminating zero.\<close>

definition printProgStr :: "string \<Rightarrow> sketch \<Rightarrow> sketch" where
  "printProgStr str s =
     s\<lparr>serial := serial s @ map PrintChar (takeWhile (\<lambda>c. c \<noteq> CHR 0x00) str)\<rparr>"

text \<open>One programming instruction: four transfers, the answer to the fourth is returned.\<close>

definition program :: "target \<Rightarrow> byte \<Rightarrow> byte \<Rightarrow> byte \<Rightarrow> byte \<Rightarrow> sketch \<Rightarrow> byte \<times> sketch" where
  "program rx b1 b2 b3 b4 s =
     (let (r1, s1) = SPI_transfer rx b1 s;
          (r2, s2) = SPI_transfer rx b2 s1;
          (r3, s3) = SPI_transfer rx b3 s2
      in SPI_transfer rx b4 s3)"

definition readFlash :: "target \<Rightarrow> 32 word \<Rightarrow> sketch \<Rightarrow> byte \<times> sketch" where
  "readFlash rx addr s =
     (let MSB = (ucast (drop_bit 16 addr AND 0xFF) :: byte);
          s1 = (if MSB \<noteq> lastAddressMSB s
                then (let (r, s') = program rx loadExtendedAddressByte 0 MSB 0 s
                      in s'\<lparr>lastAddressMSB := MSB\<rparr>)
                else s);
          high = (if addr AND 1 \<noteq> 0 then 0x08 else 0 :: byte);
          addr' = drop_bit 1 addr
      in program rx (readProgramMemory OR high) (highByte addr') (lowByte addr') 0 s1)"

text \<open>
  The buffer \<open>showHex\<close> prints (before its terminating zero): two hex digits, made
  from \<open>'0'\<close> with 7 added past \<open>'9'\<close>, and a space.
\<close>

definition showHex_buf :: "byte \<Rightarrow> string" where
  "showHex_buf b =
     (let b0 = (drop_bit 4 b AND 0x0F) OR 0x30;
          b1 = (b AND 0x0F) OR 0x30;
          b0' = (if b0 > 0x39 then b0 + 7 else b0);
          b1' = (if b1 > 0x39 then b1 + 7 else b1)
      in [char_of (unat b0'), char_of (unat b1'), CHR '' ''])"

definition showHex :: "byte \<Rightarrow> bool \<Rightarrow> sketch \<Rightarrow> sketch" where
  "showHex b newline s =
     (let s1 = Serial_print (showHex_buf b) s
      in if newline then Serial_newline s1 else s1)"

definition showYesNo :: "bool \<Rightarrow> bool \<Rightarrow> sketch \<Rightarrow> sketch" where
  "showYesNo b newline s =
     (let s1 = (if b then Serial_print ''Yes'' s else Serial_print ''No'' s)
      in if newline then Serial_newline s1 else s1)"

text \<open>\<open>memcmp (a, b, n) == 0\<close>: the first \<open>n\<close> bytes agree.\<close>

definition memcmp_eq :: "byte list \<Rightarrow> byte list \<Rightarrow> nat \<Rightarrow> bool" where
  "memcmp_eq a b n = (take n a = take n b)"

subsection \<open>readBootloader\<close>

text \<open>
  The switch on the fuse number: the fuse byte that holds the bootloader size is read
  from the chip; the default branch (no such fuse) is \<open>None\<close>.
\<close>

definition readBootloader_fuse :: "target \<Rightarrow> byte \<Rightarrow> sketch \<Rightarrow> (byte \<times> sketch) option" where
  "readBootloader_fuse rx fusenumber s =
     (if fusenumber = lowFuse
        then Some (program rx readLowFuseByte readLowFuseByteArg2 0 0 s)
      else if fusenumber = highFuse
        then Some (program rx readHighFuseByte readHighFuseByteArg2 0 0 s)
      else if fusenumber = extFuse
        then Some (program rx readExtendedFuseByte readExtendedFuseByteArg2 0 0 s)
      else None)"

text \<open>The three yes/no lines printed from the fuses.\<close>

definition showFuseFlags :: "byte \<Rightarrow> byte \<Rightarrow> sketch \<Rightarrow> sketch" where
  "showFuseFlags whichFuse hFuse s =
     (let s1 = Serial_print ''Bootloader in use: '' s;
          s2 = showYesNo (whichFuse AND bit_mask 0 = 0) True s1;
          s3 = Serial_print ''EEPROM preserved through erase: '' s2;
          s4 = showYesNo (hFuse AND bit_mask 3 = 0) True s3;
          s5 = Serial_print ''Watchdog timer always on: '' s4
      in showYesNo (hFuse AND bit_mask 4 = 0) True s5)"

text \<open>
  The switch on \<open>(whichFuse >> 1) & 3\<close>, which multiplies \<open>len\<close> (an
  \<open>unsigned int\<close>, so the product is taken modulo \<open>2 ^ 16\<close>).
\<close>

definition bootloaderLength :: "16 word \<Rightarrow> byte \<Rightarrow> 16 word" where
  "bootloaderLength len whichFuse =
     (let sel = drop_bit 1 whichFuse AND 3
      in if sel = 0 then len * 8
         else if sel = 1 then len * 4
         else if sel = 2 then len * 2
         else if sel = 3 then len * 1
         else len)"

text \<open>
  The first part of \<open>readBootloader\<close>, up to the line that prints where the bootloader
  is: either the function has returned early (\<open>Inl\<close>), or the start address and the
  length of the bootloader are known (\<open>Inr\<close>).
\<close>

definition readBootloader_region :: "target \<Rightarrow> sketch \<Rightarrow> sketch + (32 word \<times> 16 word \<times> sketch)" where
  "readBootloader_region rx s =
     (if baseBootSize (currentSignature s) = 0
      then Inl (Serial_println ''No bootloader support.'' s)
      else
        let fusenumber = fuseWithBootloaderSize (currentSignature s);
            (hFuse, s1) = program rx readHighFuseByte readHighFuseByteArg2 0 0 s
        in case readBootloader_fuse rx fusenumber s1 of
             None \<Rightarrow> Inl (Serial_println ''No bootloader fuse.'' s1)
           | Some (whichFuse, s2) \<Rightarrow>
               let addr = flashSize (currentSignature s2);
                   len = baseBootSize (currentSignature s2);
                   s3 = showFuseFlags whichFuse hFuse s2;
                   len = bootloaderLength len whichFuse;
                   addr = addr - ucast len;
                   s4 = Serial_print ''Bootloader is '' s3;
                   s5 = Serial_printNum (unat len) 10 s4;
                   s6 = Serial_print '' bytes starting at '' s5;
                   s7 = Serial_newline (Serial_printNum (unat addr) 16 s6);
                   s8 = Serial_newline s7;
                   s9 = Serial_println ''Bootloader:'' s8
               in Inr (addr, len, Serial_newline s9))"

text \<open>
  The hex dump loop, the same text in \<open>readBootloader\<close> and in \<open>readProgram\<close>. Its
  counter \<open>int i\<close> runs from 0 to \<open>len - 1\<close>; it is the number \<open>k\<close> itself as long as
  \<open>len\<close> is at most \<open>2 ^ 15\<close>, as it is for every entry of the table (8192 at most)
  and for the 256 bytes of \<open>readProgram\<close>.
\<close>

definition hexDump_step :: "target \<Rightarrow> 32 word \<Rightarrow> nat \<Rightarrow> sketch \<Rightarrow> sketch" where
  "hexDump_step rx addr k s =
     (let s1 = (if k mod 16 = 0
                then Serial_print '': '' (Serial_printNum (unat (addr + of_nat k)) 16 s)
                else s);
          (b, s2) = readFlash rx (addr + of_nat k) s1;
          s3 = showHex b False s2
      in if k mod 16 = 15 then Serial_newline s3 else s3)"

definition hexDump :: "target \<Rightarrow> 32 word \<Rightarrow> 16 word \<Rightarrow> sketch \<Rightarrow> sketch" where
  "hexDump rx addr len s = fold (hexDump_step rx addr) [0..<unat len] s"

text \<open>
  The MD5 code (\<open>md5.h\<close>) is not part of the sketch; the three functions it offers are
  taken as they come: the fresh context of \<open>md5_starts\<close>, \<open>md5_update\<close> with the
  bytes it is given, and the sum \<open>md5_finish\<close> writes.
\<close>

record 'c md5 =
  md5_starts :: 'c
  md5_update :: "'c \<Rightarrow> byte list \<Rightarrow> 'c"
  md5_finish :: "'c \<Rightarrow> byte list"

text \<open>
  \<open>while (len--)\<close>: one flash read per round, a byte other than \<open>0xFF\<close> clears
  \<open>allFF\<close>, and every byte goes into the sum.
\<close>

function md5_loop ::
  "target \<Rightarrow> ('c \<Rightarrow> byte list \<Rightarrow> 'c) \<Rightarrow> 16 word \<Rightarrow> 32 word \<Rightarrow> bool \<Rightarrow> 'c \<Rightarrow> sketch
     \<Rightarrow> bool \<times> 'c \<times> sketch" where
  "md5_loop rx upd len addr allFF ctx s =
     (if len = 0 then (allFF, ctx, s)
      else
        let (mem, s1) = readFlash rx addr s;
            allFF' = (if mem \<noteq> 0xFF then False else allFF);
            ctx' = upd ctx [mem]
        in md5_loop rx upd (len - 1) (addr + 1) allFF' ctx' s1)"
  by pat_completeness auto
termination
  by (relation "measure (\<lambda>(rx, upd, len, addr, allFF, ctx, s). unat len)")
     (auto simp: unat_minus_one unat_gt_0)

declare md5_loop.simps [simp del]

text \<open>The sum of the bootloader: the loop between \<open>md5_starts\<close> and \<open>md5_finish\<close>.\<close>

definition readBootloader_md5 ::
  "target \<Rightarrow> 'c md5 \<Rightarrow> 32 word \<Rightarrow> 16 word \<Rightarrow> sketch \<Rightarrow> byte list \<times> bool \<times> sketch" where
  "readBootloader_md5 rx M addr len s =
     (let (allFF, ctx, s1) = md5_loop rx (md5_update M) len addr True (md5_starts M) s
      in (md5_finish M ctx, allFF, s1))"

text \<open>The search of the database: the first entry with the same 16 bytes is printed.\<close>

fun scanDatabase :: "deviceDatabaseType list \<Rightarrow> byte list \<Rightarrow> sketch \<Rightarrow> bool \<times> sketch" where
  "scanDatabase [] digest s = (False, s)"
| "scanDatabase (dbEntry # rest) digest s =
     (if \<not> memcmp_eq (md5sum dbEntry) digest 16 then scanDatabase rest digest s
      else
        let s1 = Serial_print ''Bootloader name: '' s;
            s2 = printProgStr (filename dbEntry) s1
        in (True, Serial_newline s2))"

text \<open>
  The end of \<open>readBootloader\<close>: the 16 bytes of the sum are shown, then the verdict.
\<close>

definition readBootloader_name :: "deviceDatabaseType list \<Rightarrow> byte list \<Rightarrow> bool \<Rightarrow> sketch \<Rightarrow> sketch" where
  "readBootloader_name db digest allFF s =
     (let s1 = fold (\<lambda>b. showHex b False) (take 16 digest) s;
          s2 = Serial_newline s1
      in if allFF then Serial_println ''No bootloader (all 0xFF)'' s2
         else
           let (found, s3) = scanDatabase db digest s2
           in if \<not> found then Serial_println ''Bootloader MD5 sum not known.'' s3 else s3)"

definition readBootloader :: "target \<Rightarrow> 'c md5 \<Rightarrow> sketch \<Rightarrow> sketch" where
  "readBootloader rx M s =
     (case readBootloader_region rx s of
        Inl s' \<Rightarrow> s'
      | Inr (addr, len, s1) \<Rightarrow>
          let s2 = hexDump rx addr len s1;
              s3 = Serial_newline s2;
              s4 = Serial_print ''MD5 sum of bootloader = '' s3;
              (digest, allFF, s5) = readBootloader_md5 rx M addr len s4
          in readBootloader_name deviceDatabase digest allFF s5)"

subsection \<open>readProgram\<close>

definition readProgram :: "target \<Rightarrow> sketch \<Rightarrow> sketch" where
  "readProgram rx s =
     (let addr = 0; len = 256;
          s1 = Serial_newline s;
          s2 = Serial_println ''First 256 bytes of program memory:'' s1;
          s3 = Serial_newline s2;
          s4 = hexDump rx addr len s3
      in Serial_newline s4)"

subsection \<open>startProgramming\<close>

text \<open>
  One round of the \<open>do ... while\<close> loop up to the test of \<open>confirm\<close>: the reset pulse
  and the four bytes of the enable command; \<open>confirm\<close> is the answer to the third.
\<close>

definition enterProgramming :: "target \<Rightarrow> sketch \<Rightarrow> byte \<times> sketch" where
  "enterProgramming rx s =
     (let s1 = hardware (Delay 100) s;
          s2 = hardware (DigitalWrite SCK False) s1;
          s3 = hardware (DigitalWrite RESET True) s2;
          s4 = hardware (Delay 1) s3;
          s5 = hardware (DigitalWrite RESET False) s4;
          s6 = hardware (Delay 25) s5;
          (r1, s7) = SPI_transfer rx progamEnable s6;
          (r2, s8) = SPI_transfer rx programAcknowledge s7;
          (confirm, s9) = SPI_transfer rx 0 s8;
          (r4, s10) = SPI_transfer rx 0 s9
      in (confirm, s10))"

text \<open>
  The loop, with its counter \<open>timeout\<close>. It is left with \<open>False\<close> from inside, after
  the failure message, or with \<open>True\<close> when \<open>confirm\<close> is the acknowledge byte.
\<close>

function startProgramming_loop :: "target \<Rightarrow> 16 word \<Rightarrow> sketch \<Rightarrow> bool \<times> sketch" where
  "startProgramming_loop rx timeout s =
     (let (confirm, s1) = enterProgramming rx s
      in if confirm \<noteq> programAcknowledge
         then
           let s2 = Serial_print ''.'' s1
           in if timeout \<ge> ENTER_PROGRAMMING_ATTEMPTS
              then (False, Serial_println ''Failed to enter programming mode. Double-check wiring!''
                             (Serial_newline s2))
              else startProgramming_loop rx (timeout + 1) s2
         else (True, s1))"
  by pat_completeness auto
termination
  by (relation "measure (\<lambda>(rx, timeout, s). 51 - unat timeout)")
     (auto simp: ENTER_PROGRAMMING_ATTEMPTS_def word_le_nat_alt not_le unat_word_ariths)

declare startProgramming_loop.simps [simp del]

definition startProgramming :: "target \<Rightarrow> sketch \<Rightarrow> bool \<times> sketch" where
  "startProgramming rx s =
     (let s1 = Serial_print ''Attempting to enter programming mode ...'' s;
          s2 = hardware (DigitalWrite RESET True) s1;
          s3 = hardware SPI_begin s2;
          s4 = hardware (SPI_setClockDivider 64) s3;
          s5 = hardware (PinMode RESET) s4;
          s6 = hardware (PinMode SCK) s5;
          (entered, s7) = startProgramming_loop rx 0 s6
      in if entered
         then (True, Serial_println ''Entered programming mode OK.'' (Serial_newline s7))
         else (False, s7))"

subsection \<open>getSignature\<close>

text \<open>
  The search of the signature table from entry \<open>j\<close> on. Every entry looked at is copied
  into \<open>currentSignature\<close> before it is compared.
\<close>

fun scanSignatures :: "byte list \<Rightarrow> signatureType list \<Rightarrow> int \<Rightarrow> sketch \<Rightarrow> sketch" where
  "scanSignatures sg [] j s = Serial_println ''Unrecogized signature.'' s"
| "scanSignatures sg (entry # rest) j s =
     (let s1 = s\<lparr>currentSignature := entry\<rparr>
      in if memcmp_eq sg (sig (currentSignature s1)) 3
         then
           let s2 = s1\<lparr>foundSig := j\<rparr>;
               s3 = Serial_print ''Processor = '' s2;
               s4 = Serial_println (desc (currentSignature s3)) s3;
               s5 = Serial_print ''Flash memory size = '' s4;
               s6 = Serial_printNum (unat (flashSize (currentSignature s5))) 10 s5
           in Serial_println '' bytes.'' s6
         else scanSignatures sg rest (j + 1) s1)"

text \<open>The three signature bytes are read and shown one after the other.\<close>

definition readSignature :: "target \<Rightarrow> byte \<Rightarrow> byte list \<times> sketch \<Rightarrow> byte list \<times> sketch" where
  "readSignature rx i acc =
     (let (b, s1) = program rx readSignatureByte 0 i 0 (snd acc)
      in (fst acc @ [b], showHex b False s1))"

definition getSignature :: "target \<Rightarrow> sketch \<Rightarrow> sketch" where
  "getSignature rx s =
     (let s1 = s\<lparr>foundSig := -1\<rparr>;
          s2 = Serial_print ''Signature = '' s1;
          (sg, s3) = fold (readSignature rx) [0, 1, 2] ([], s2);
          s4 = Serial_newline s3
      in scanSignatures sg signatures 0 s4)"

subsection \<open>getFuseBytes\<close>

definition getFuseBytes :: "target \<Rightarrow> sketch \<Rightarrow> sketch" where
  "getFuseBytes rx s =
     (let s1 = Serial_print ''LFuse = '' s;
          (b1, s2) = program rx readLowFuseByte readLowFuseByteArg2 0 0 s1;
          s3 = showHex b1 True s2;
          s4 = Serial_print ''HFuse = '' s3;
          (b2, s5) = program rx readHighFuseByte readHighFuseByteArg2 0 0 s4;
          s6 = showHex b2 True s5;
          s7 = Serial_print ''EFuse = '' s6;
          (b3, s8) = program rx readExtendedFuseByte readExtendedFuseByteArg2 0 0 s7;
          s9 = showHex b3 True s8;
          s10 = Serial_print ''Lock byte = '' s9;
          (b4, s11) = program rx readLockByte readLockByteArg2 0 0 s10;
          s12 = showHex b4 True s11;
          s13 = Serial_print ''Clock calibration = '' s12;
          (b5, s14) = program rx readCalibrationByte 0 0 0 s13
      in showHex b5 True s14)"

subsection \<open>setup\<close>

definition Version :: string where
  "Version = ''1.14''"

text \<open>
  The body of \<open>if (startProgramming ())\<close> in \<open>setup\<close>, in two parts: what follows
  \<open>getSignature\<close>, and the whole.
\<close>

definition setup_report :: "target \<Rightarrow> 'c md5 \<Rightarrow> sketch \<Rightarrow> sketch" where
  "setup_report rx M s =
     (let s1 = getFuseBytes rx s;
          s2 = (if foundSig s1 \<noteq> -1 then readBootloader rx M s1 else s1)
      in readProgram rx s2)"

definition setup_detect :: "target \<Rightarrow> 'c md5 \<Rightarrow> sketch \<Rightarrow> sketch" where
  "setup_detect rx M s = setup_report rx M (getSignature rx s)"

text \<open>
  \<open>setup\<close>, from the banner on. The line with the date, time and IDE version of the
  build is the parameter \<open>compiled\<close>; the registers of Timer 1, which only put a clock
  on pin 9, are left out. \<open>loop\<close> is empty.
\<close>

definition setup_run :: "target \<Rightarrow> 'c md5 \<Rightarrow> string \<Rightarrow> sketch \<Rightarrow> sketch" where
  "setup_run rx M compiled s =
     (let s1 = Serial_newline s;
          s2 = Serial_println ''Atmega chip detector.'' s1;
          s3 = Serial_println ''Written by Nick Gammon.'' s2;
          s4 = Serial_print ''Version '' s3;
          s5 = Serial_println Version s4;
          s6 = Serial_println compiled s5;
          s7 = hardware (PinMode CLOCKOUT) s6;
          (entered, s8) = startProgramming rx s7
      in if entered then setup_detect rx M s8 else s8)"

section \<open>Reading the logs\<close>

text \<open>
  A run of flash reads, one \<open>readFlash\<close> after the other in the order of the list,
  with the bytes they return.
\<close>

fun readFlashes :: "target \<Rightarrow> 32 word list \<Rightarrow> sketch \<Rightarrow> byte list \<times> sketch" where
  "readFlashes rx [] s = ([], s)"
| "readFlashes rx (a # as) s =
     (let (b, s1) = readFlash rx a s;
          (bs, s2) = readFlashes rx as s1
      in (b # bs, s2))"

text \<open>The bytes sent between an earlier state and a later one.\<close>

definition issued :: "sketch \<Rightarrow> sketch \<Rightarrow> byte list" where
  "issued s s' = drop (length (sent s)) (sent s')"

text \<open>Bytes in groups of four, one group per programming instruction.\<close>

fun frames :: "byte list \<Rightarrow> byte list list" where
  "frames (a # b # c # d # rest) = [a, b, c, d] # frames rest"
| "frames rest = []"

text \<open>The number of load-extended-address instructions among the bytes.\<close>

definition loads :: "byte list \<Rightarrow> nat" where
  "loads bytes = length (filter (\<lambda>f. hd f = loadExtendedAddressByte) (frames bytes))"

text \<open>The addresses of the \<open>len\<close> bytes from \<open>addr\<close> on, in ascending order.\<close>

definition region :: "32 word \<Rightarrow> 16 word \<Rightarrow> 32 word list" where
  "region addr len = map (\<lambda>k. addr + of_nat k) [0..<unat len]"

subsection \<open>Example targets\<close>

text \<open>A target that answers \<open>0xFF\<close> to everything, as an erased flash does.\<close>

definition erased :: target where
  "erased n = 0xFF"

text \<open>
  The answers of an ATmega328P with high fuse \<open>0xDE\<close> and an empty flash to
  \<open>getSignature\<close> followed by \<open>readBootloader\<close>, run from the initial state: the
  signature on transfers 3, 7 and 11, the high fuse on transfers 15 and 19.
\<close>

definition atmega328p :: target where
  "atmega328p n =
     (if n = 3 then 0x1E else if n = 7 then 0x95 else if n = 11 then 0x0F
      else if n = 15 \<or> n = 19 then 0xDE else 0xFF)"

text \<open>
  A target that acknowledges the first enable command of a run from the initial state
  (transfer 2) and answers \<open>0xFF\<close> to everything else.
\<close>

definition acknowledging :: target where
  "acknowledging n = (if n = 2 then programAcknowledge else 0xFF)"

text \<open>
  A stand-in for the MD5 code that keeps the bytes it is given and returns them as the
  sum, to run the loops on examples.
\<close>

definition keep_bytes :: "(byte list) md5" where
  "keep_bytes = \<lparr>md5_starts = [], md5_update = (\<lambda>ctx bytes. ctx @ bytes), md5_finish = (\<lambda>ctx. ctx)\<rparr>"

subsection \<open>The rounds of startProgramming\<close>

text \<open>The four bytes of the enable command and the pin events of one reset pulse.\<close>

definition enable_command :: "byte list" where
  "enable_command = [progamEnable, programAcknowledge, 0, 0]"

definition reset_pulse :: "hw_event list" where
  "reset_pulse = [Delay 100, DigitalWrite SCK False, DigitalWrite RESET True, Delay 1,
     DigitalWrite RESET False, Delay 25]"

text \<open>
  What \<open>n\<close> rounds of the loop that were not acknowledged leave in the logs: \<open>n\<close>
  pulses, \<open>n\<close> enable commands and \<open>n\<close> dots.
\<close>

definition rounds :: "nat \<Rightarrow> sketch \<Rightarrow> sketch" where
  "rounds n s =
     s\<lparr>sent := sent s @ concat (replicate n enable_command),
       pins := pins s @ concat (replicate n reset_pulse),
       serial := serial s @ replicate n (PrintStr ''.'')\<rparr>"

section \<open>Facts about the primitives\<close>

lemmas command_defs =
  progamEnable_def programAcknowledge_def readSignatureByte_def readCalibrationByte_def
  readLowFuseByte_def readLowFuseByteArg2_def readExtendedFuseByte_def
  readExtendedFuseByteArg2_def readHighFuseByte_def readHighFuseByteArg2_def
  readLockByte_def readLockByteArg2_def readProgramMemory_def loadExtendedAddressByte_def

lemmas fuse_defs = lowFuse_def highFuse_def extFuse_def NO_FUSE_def

lemma program_eq:
  "program rx b1 b2 b3 b4 s = (rx (length (sent s) + 3), s\<lparr>sent := sent s @ [b1, b2, b3, b4]\<rparr>)"
  by (simp add: program_def SPI_transfer_def eval_nat_numeral)

lemma showHex_eq:
  "showHex b nl s = s\<lparr>serial := serial s @ PrintStr (showHex_buf b) # (if nl then [Newline] else [])\<rparr>"
  by (simp add: showHex_def Serial_print_def Serial_newline_def Let_def)

lemma showHex_buf_examples:
  "showHex_buf 0x1E = ''1E ''" "showHex_buf 0x95 = ''95 ''" "showHex_buf 0xFF = ''FF ''"
  by (simp_all add: showHex_buf_def char_of_def bit_0)

lemma selector_bits:
  "(drop_bit 1 w AND 3 :: byte) = of_bool (bit w 1) + 2 * of_bool (bit w 2)"
proof -
  have "(3 :: byte) = mask 2" by (simp add: mask_eq_exp_minus_1)
  then have "drop_bit 1 w AND 3 = take_bit 2 (drop_bit 1 w)"
    by (simp add: take_bit_eq_mask)
  also have "\<dots> = of_bool (bit w 1) + 2 * of_bool (bit w 2)"
    by (rule bit_word_eqI)
       (auto simp: bit_simps numeral_2_eq_2 bit_Suc less_Suc_eq bit_0 even_bit_succ_iff split: if_splits)
  finally show ?thesis .
qed

lemma flag_bit: "(w AND bit_mask n = 0) = (\<not> bit w n)" for w :: byte
  by (simp only: bit_mask_def push_bit_of_1 and_exp_eq_0_iff_not_bit)

lemma bootloaderLength_power:
  "bootloaderLength len w = len * 2 ^ (3 - unat (drop_bit 1 w AND 3))"
  unfolding bootloaderLength_def selector_bits Let_def
  by (cases "bit w 1"; cases "bit w 2") simp_all

lemma showFuseFlags_eq':
  "showFuseFlags w h s = s\<lparr>serial := serial s @
       [PrintStr ''Bootloader in use: '', PrintStr (if \<not> bit w 0 then ''Yes'' else ''No''), Newline,
        PrintStr ''EEPROM preserved through erase: '', PrintStr (if \<not> bit h 3 then ''Yes'' else ''No''), Newline,
        PrintStr ''Watchdog timer always on: '', PrintStr (if \<not> bit h 4 then ''Yes'' else ''No''), Newline]\<rparr>"
  by (simp add: showFuseFlags_def showYesNo_def Serial_print_def Serial_newline_def flag_bit Let_def)

lemma readBootloader_fuse_eq:
  "readBootloader_fuse rx f s =
     (if f = lowFuse \<or> f = highFuse \<or> f = extFuse
      then Some (rx (length (sent s) + 3),
                 s\<lparr>sent := sent s @ [if f = highFuse then readHighFuseByte else readLowFuseByte,
                                      if f = lowFuse then 0 else 8, 0, 0]\<rparr>)
      else None)"
  by (simp add: readBootloader_fuse_def program_eq command_defs fuse_defs)

section \<open>The first part of readBootloader\<close>

lemma readBootloader_region_Inl:
  "baseBootSize (currentSignature s) = 0 \<Longrightarrow>
     readBootloader_region rx s = Inl (Serial_println ''No bootloader support.'' s)"
  by (simp add: readBootloader_region_def)

lemma readBootloader_region_default:
  assumes "baseBootSize (currentSignature s) \<noteq> 0"
    and "fuseWithBootloaderSize (currentSignature s) \<notin> {lowFuse, highFuse, extFuse}"
  shows "readBootloader_region rx s =
     Inl (Serial_println ''No bootloader fuse.''
            (s\<lparr>sent := sent s @ [readHighFuseByte, readHighFuseByteArg2, 0, 0]\<rparr>))"
  using assms by (simp add: readBootloader_region_def program_eq readBootloader_fuse_eq)

lemma readBootloader_region_Inr:
  assumes "baseBootSize (currentSignature s) \<noteq> 0"
    and "fuseWithBootloaderSize (currentSignature s) \<in> {lowFuse, highFuse, extFuse}"
  shows "\<exists>s'. readBootloader_region rx s =
     Inr (flashSize (currentSignature s) -
            ucast (bootloaderLength (baseBootSize (currentSignature s)) (rx (length (sent s) + 7))),
          bootloaderLength (baseBootSize (currentSignature s)) (rx (length (sent s) + 7)), s')
     \<and> currentSignature s' = currentSignature s \<and> foundSig s' = foundSig s
     \<and> lastAddressMSB s' = lastAddressMSB s \<and> pins s' = pins s
     \<and> sent s' = sent s @ [readHighFuseByte, readHighFuseByteArg2, 0, 0] @
         (if fuseWithBootloaderSize (currentSignature s) = lowFuse
            then [readLowFuseByte, readLowFuseByteArg2, 0, 0]
          else if fuseWithBootloaderSize (currentSignature s) = highFuse
            then [readHighFuseByte, readHighFuseByteArg2, 0, 0]
          else [readExtendedFuseByte, readExtendedFuseByteArg2, 0, 0])
     \<and> take 12 (drop (length (serial s)) (serial s')) =
       [PrintStr ''Bootloader in use: '',
        PrintStr (if \<not> bit (rx (length (sent s) + 7)) 0 then ''Yes'' else ''No''), Newline,
        PrintStr ''EEPROM preserved through erase: '',
        PrintStr (if \<not> bit (rx (length (sent s) + 3)) 3 then ''Yes'' else ''No''), Newline,
        PrintStr ''Watchdog timer always on: '',
        PrintStr (if \<not> bit (rx (length (sent s) + 3)) 4 then ''Yes'' else ''No''), Newline,
        PrintStr ''Bootloader is '',
        PrintNum (unat (bootloaderLength (baseBootSize (currentSignature s)) (rx (length (sent s) + 7)))) 10,
        PrintStr '' bytes starting at '']"
  using assms
  by (simp add: readBootloader_region_def program_eq readBootloader_fuse_eq showFuseFlags_eq'
      Serial_println_def Serial_print_def Serial_newline_def Serial_printNum_def Let_def add.commute
      split del: if_split)
     (auto simp: command_defs fuse_defs)

lemma readBootloader_region_isl:
  "isl (readBootloader_region rx s) =
     (baseBootSize (currentSignature s) = 0 \<or>
      fuseWithBootloaderSize (currentSignature s) \<notin> {lowFuse, highFuse, extFuse})"
proof (cases "baseBootSize (currentSignature s) = 0")
  case True
  then show ?thesis by (simp add: readBootloader_region_Inl)
next
  case False
  show ?thesis
  proof (cases "fuseWithBootloaderSize (currentSignature s) \<in> {lowFuse, highFuse, extFuse}")
    case True
    from readBootloader_region_Inr [OF False True, of rx] obtain a l s'
      where "readBootloader_region rx s = Inr (a, l, s')" by blast
    with False True show ?thesis by simp
  next
    case sel: False
    with False show ?thesis by (simp add: readBootloader_region_default)
  qed
qed

lemma readBootloader_region_InrD:
  assumes "readBootloader_region rx s = Inr (addr, len, s')"
  shows "baseBootSize (currentSignature s) \<noteq> 0"
    and "fuseWithBootloaderSize (currentSignature s) \<in> {lowFuse, highFuse, extFuse}"
    and "len = bootloaderLength (baseBootSize (currentSignature s)) (rx (length (sent s) + 7))"
    and "addr = flashSize (currentSignature s) - ucast len"
proof -
  have "\<not> isl (readBootloader_region rx s)" using assms by simp
  then show nz: "baseBootSize (currentSignature s) \<noteq> 0"
    and sel: "fuseWithBootloaderSize (currentSignature s) \<in> {lowFuse, highFuse, extFuse}"
    by (simp_all add: readBootloader_region_isl)
  from readBootloader_region_Inr [OF nz sel, of rx] assms
  show "len = bootloaderLength (baseBootSize (currentSignature s)) (rx (length (sent s) + 7))"
    and "addr = flashSize (currentSignature s) - ucast len"
    by auto
qed

lemma length_no_overflow:
  fixes base :: "16 word"
  assumes "8 * unat base < 2 ^ 16"
  shows "unat (base * 2 ^ (3 - unat (drop_bit 1 w AND (3 :: byte)))) =
         unat base * 2 ^ (3 - unat (drop_bit 1 w AND (3 :: byte)))"
proof -
  define k where "k = 3 - unat (drop_bit 1 w AND (3 :: byte))"
  have "k \<le> 3" by (simp add: k_def)
  then have "(2::nat) ^ k \<le> 2 ^ 3" by (rule power_increasing) simp
  then have le: "(2::nat) ^ k \<le> 8" by simp
  have "unat base * 2 ^ k \<le> unat base * 8" using le by (rule mult_le_mono2)
  also have "\<dots> = 8 * unat base" by (rule mult.commute)
  also note assms
  finally have small: "unat base * 2 ^ k < 2 ^ 16" .
  have "unat (base * 2 ^ k) = (unat base * unat ((2 :: 16 word) ^ k)) mod 2 ^ 16"
    by (simp add: unat_word_ariths)
  also have "unat ((2 :: 16 word) ^ k) = 2 ^ k"
  proof -
    from \<open>k \<le> 3\<close> have "k = 0 \<or> k = 1 \<or> k = 2 \<or> k = 3" by arith
    then show ?thesis by auto
  qed
  finally show ?thesis using small by (simp add: k_def)
qed

lemma start_no_underflow:
  fixes flash :: "32 word" and len :: "16 word"
  assumes "unat len \<le> unat flash"
  shows "unat (flash - ucast len) + unat len = unat flash"
proof -
  have "unat (ucast len :: 32 word) = unat len"
    by (simp add: unsigned_ucast_eq take_bit_nat_eq_self_iff order_less_trans [OF unsigned_less])
  with assms have "(ucast len :: 32 word) \<le> flash"
    by (simp add: word_le_nat_alt)
  then have "unat (flash - ucast len) = unat flash - unat (ucast len :: 32 word)"
    by (rule unat_sub)
  with assms \<open>unat (ucast len :: 32 word) = unat len\<close> show ?thesis by simp
qed

section \<open>getSignature on the table\<close>

lemma getSignature_eq:
  "getSignature rx s =
     scanSignatures [rx (length (sent s) + 3), rx (length (sent s) + 7), rx (length (sent s) + 11)]
       signatures 0
       (s\<lparr>foundSig := -1,
          sent := sent s @ [readSignatureByte, 0, 0, 0, readSignatureByte, 0, 1, 0,
                            readSignatureByte, 0, 2, 0],
          serial := serial s @
            [PrintStr ''Signature = '', PrintStr (showHex_buf (rx (length (sent s) + 3))),
             PrintStr (showHex_buf (rx (length (sent s) + 7))),
             PrintStr (showHex_buf (rx (length (sent s) + 11))), Newline]\<rparr>)"
  by (simp add: getSignature_def readSignature_def program_eq showHex_eq Serial_print_def
      Serial_newline_def add.commute)

lemma scan_ATmega328P:
  "scanSignatures [0x1E, 0x95, 0x0F] signatures 0 s =
     s\<lparr>foundSig := 9, currentSignature := signatures ! 9,
       serial := serial s @ [PrintStr ''Processor = '', PrintStr ''ATmega328P'', Newline,
         PrintStr ''Flash memory size = '', PrintNum 32768 10, PrintStr '' bytes.'', Newline]\<rparr>"
  by (simp add: signatures_def memcmp_eq_def kb_def Serial_println_def Serial_print_def
      Serial_newline_def Serial_printNum_def)

lemma getSignature_atmega328p:
  "getSignature atmega328p initial =
     initial\<lparr>foundSig := 9, currentSignature := signatures ! 9,
       sent := [readSignatureByte, 0, 0, 0, readSignatureByte, 0, 1, 0, readSignatureByte, 0, 2, 0],
       serial := [PrintStr ''Signature = '', PrintStr (showHex_buf 0x1E),
         PrintStr (showHex_buf 0x95), PrintStr (showHex_buf 0x0F), Newline, PrintStr ''Processor = '', PrintStr ''ATmega328P'', Newline,
         PrintStr ''Flash memory size = '', PrintNum 32768 10, PrintStr '' bytes.'', Newline]\<rparr>"
  by (simp add: getSignature_eq atmega328p_def initial_def scan_ATmega328P)

lemma entry_ATmega328P:
  "signatures ! 9 = \<lparr>sig = [0x1E, 0x95, 0x0F], desc = ''ATmega328P'', flashSize = 32768,
     baseBootSize = 512, pageSize = 128, fuseWithBootloaderSize = highFuse, timedWrites = 0\<rparr>"
  by (simp add: signatures_def kb_def)

lemma region_atmega328p:
  "\<exists>s'. readBootloader_region atmega328p (getSignature atmega328p initial) = Inr (32256, 512, s')"
proof -
  let ?t = "getSignature atmega328p initial"
  have "baseBootSize (currentSignature ?t) \<noteq> 0"
    and "fuseWithBootloaderSize (currentSignature ?t) \<in> {lowFuse, highFuse, extFuse}"
    by (simp_all add: getSignature_atmega328p entry_ATmega328P)
  from readBootloader_region_Inr [OF this, of atmega328p]
  show ?thesis
    by (auto simp: getSignature_atmega328p entry_ATmega328P atmega328p_def bootloaderLength_def)
qed

section \<open>Where the bootloader is\<close>

text \<open>
  C3. \<open>readBootloader\<close> gives up before it knows a region (\<open>isl\<close>) exactly when
  the bootloader size of the descriptor is 0 or its fuse number is none of \<open>lowFuse\<close>,
  \<open>highFuse\<close>, \<open>extFuse\<close>; for a descriptor whose fuse number is one of these three or
  the sentinel \<open>NO_FUSE\<close>, that is: exactly when the size is 0 or the fuse number is
  \<open>NO_FUSE\<close>. In every other case the region found has
  \<open>addr + len = flashSize\<close>, \<open>len\<close> is the base size times the multiplier
  \<open>2 ^ (3 - selector)\<close> decoded from bits 1 and 2 of the fuse byte read, and
  \<open>addr = flashSize - len\<close>. The equations are those of the machine: \<open>len\<close> is
  an \<open>unsigned int\<close> and \<open>addr\<close> an \<open>unsigned long\<close>. Where eight times the base size
  fits in 16 bits and in the flash, they hold of the numbers themselves.
\<close>

theorem readBootloader_region_locates:
  "let d = currentSignature s; w = rx (length (sent s) + 7); r = readBootloader_region rx s in
     (isl r \<longleftrightarrow> baseBootSize d = 0 \<or> fuseWithBootloaderSize d \<notin> {lowFuse, highFuse, extFuse}) \<and>
     (fuseWithBootloaderSize d \<in> {lowFuse, highFuse, extFuse, NO_FUSE} \<longrightarrow>
        (isl r \<longleftrightarrow> baseBootSize d = 0 \<or> fuseWithBootloaderSize d = NO_FUSE)) \<and>
     (\<forall>addr len s'. r = Inr (addr, len, s') \<longrightarrow>
        addr + ucast len = flashSize d \<and>
        len = baseBootSize d * 2 ^ (3 - unat (drop_bit 1 w AND 3)) \<and>
        addr = flashSize d - ucast len \<and>
        (8 * unat (baseBootSize d) < 2 ^ 16 \<and> 8 * unat (baseBootSize d) \<le> unat (flashSize d) \<longrightarrow>
           unat len = unat (baseBootSize d) * 2 ^ (3 - unat (drop_bit 1 w AND 3)) \<and>
           unat addr + unat len = unat (flashSize d)))"
proof -
  define d where "d = currentSignature s"
  define w where "w = rx (length (sent s) + 7)"
  define r where "r = readBootloader_region rx s"
  define k where "k = 3 - unat (drop_bit 1 w AND 3)"
  have none: "isl r \<longleftrightarrow> baseBootSize d = 0 \<or> fuseWithBootloaderSize d \<notin> {lowFuse, highFuse, extFuse}"
    unfolding r_def d_def by (rule readBootloader_region_isl)
  have sentinel: "isl r \<longleftrightarrow> baseBootSize d = 0 \<or> fuseWithBootloaderSize d = NO_FUSE"
    if "fuseWithBootloaderSize d \<in> {lowFuse, highFuse, extFuse, NO_FUSE}"
    using that none by (auto simp: fuse_defs)
  have some: "addr + ucast len = flashSize d \<and> len = baseBootSize d * 2 ^ k \<and>
        addr = flashSize d - ucast len \<and>
        (8 * unat (baseBootSize d) < 2 ^ 16 \<and> 8 * unat (baseBootSize d) \<le> unat (flashSize d) \<longrightarrow>
           unat len = unat (baseBootSize d) * 2 ^ k \<and> unat addr + unat len = unat (flashSize d))"
    if r: "r = Inr (addr, len, s')" for addr len s'
  proof -
    from r have len: "len = baseBootSize d * 2 ^ k" and addr: "addr = flashSize d - ucast len"
      using readBootloader_region_InrD(3,4) [of rx s addr len s']
      by (simp_all add: r_def d_def w_def k_def bootloaderLength_power)
    have fits: "unat len = unat (baseBootSize d) * 2 ^ k \<and> unat addr + unat len = unat (flashSize d)"
      if small: "8 * unat (baseBootSize d) < 2 ^ 16" and below: "8 * unat (baseBootSize d) \<le> unat (flashSize d)"
    proof -
      have ulen: "unat len = unat (baseBootSize d) * 2 ^ k"
        unfolding len k_def using small by (rule length_no_overflow)
      have "k \<le> 3" by (simp add: k_def)
      then have "(2::nat) ^ k \<le> 2 ^ 3" by (rule power_increasing) simp
      then have "(2::nat) ^ k \<le> 8" by simp
      then have "unat (baseBootSize d) * 2 ^ k \<le> unat (baseBootSize d) * 8"
        by (rule mult_le_mono2)
      also have "\<dots> = 8 * unat (baseBootSize d)" by (rule mult.commute)
      also note below
      finally have "unat len \<le> unat (flashSize d)" by (simp only: ulen)
      then have "unat (flashSize d - ucast len) + unat len = unat (flashSize d)"
        by (rule start_no_underflow)
      with ulen addr show ?thesis by simp
    qed
    from addr have "addr + ucast len = flashSize d" by simp
    with len addr fits show ?thesis by blast
  qed
  show ?thesis
    using none sentinel some
    unfolding Let_def d_def [symmetric] w_def [symmetric] r_def [symmetric] k_def [symmetric]
    by blast
qed

theorem readBootloader_region_locates_witness:
  "\<not> isl (readBootloader_region atmega328p (getSignature atmega328p initial)) \<and>
   (\<exists>s'. readBootloader_region atmega328p (getSignature atmega328p initial) = Inr (32256, 512, s')) \<and>
   (32256 :: 32 word) + ucast (512 :: 16 word) = flashSize (currentSignature (getSignature atmega328p initial)) \<and>
   unat (32256 :: 32 word) + unat (512 :: 16 word) =
     unat (flashSize (currentSignature (getSignature atmega328p initial)))"
  using readBootloader_region_locates [of "getSignature atmega328p initial" atmega328p]
    region_atmega328p
  by (auto simp: Let_def getSignature_atmega328p entry_ATmega328P)

text \<open>
  C4. The two bits above bit 0 of the fuse byte select the multiplier of the length:
  \<open>00\<close> gives 8, \<open>01\<close> gives 4, \<open>10\<close> gives 2 and \<open>11\<close> gives 1, for every
  fuse byte and every length (bit 2 is the high bit of the selector, bit 1 the low one).
\<close>

theorem bootloaderLength_multiplier:
  "bootloaderLength len w =
     len * (case (bit w 2, bit w 1) of
              (False, False) \<Rightarrow> 8 | (False, True) \<Rightarrow> 4 | (True, False) \<Rightarrow> 2 | (True, True) \<Rightarrow> 1)"
  unfolding bootloaderLength_def selector_bits Let_def
  by (cases "bit w 1"; cases "bit w 2") simp_all

text \<open>
  C8. The three flags printed from the fuses: the bootloader is in use iff bit 0 of
  the selected fuse byte is 0, the EEPROM is preserved through erase iff bit 3 of the
  high fuse byte is 0, the watchdog timer is always on iff bit 4 of the high fuse byte
  is 0. In \<open>readBootloader\<close> the high fuse byte is the answer to the first instruction
  sent, and the selected fuse byte the answer to the second, which reads the fuse the
  descriptor names.
\<close>

theorem showFuseFlags_decodes:
  "showFuseFlags whichFuse hFuse s =
     s\<lparr>serial := serial s @
       [PrintStr ''Bootloader in use: '', PrintStr (if \<not> bit whichFuse 0 then ''Yes'' else ''No''), Newline,
        PrintStr ''EEPROM preserved through erase: '', PrintStr (if \<not> bit hFuse 3 then ''Yes'' else ''No''), Newline,
        PrintStr ''Watchdog timer always on: '', PrintStr (if \<not> bit hFuse 4 then ''Yes'' else ''No''), Newline]\<rparr>
   \<and> (\<forall>addr len t'. readBootloader_region rx t = Inr (addr, len, t') \<longrightarrow>
        issued t t' = [readHighFuseByte, readHighFuseByteArg2, 0, 0] @
          (if fuseWithBootloaderSize (currentSignature t) = lowFuse
             then [readLowFuseByte, readLowFuseByteArg2, 0, 0]
           else if fuseWithBootloaderSize (currentSignature t) = highFuse
             then [readHighFuseByte, readHighFuseByteArg2, 0, 0]
           else [readExtendedFuseByte, readExtendedFuseByteArg2, 0, 0]) \<and>
        take 9 (drop (length (serial t)) (serial t')) =
          [PrintStr ''Bootloader in use: '',
           PrintStr (if \<not> bit (rx (length (sent t) + 7)) 0 then ''Yes'' else ''No''), Newline,
           PrintStr ''EEPROM preserved through erase: '',
           PrintStr (if \<not> bit (rx (length (sent t) + 3)) 3 then ''Yes'' else ''No''), Newline,
           PrintStr ''Watchdog timer always on: '',
           PrintStr (if \<not> bit (rx (length (sent t) + 3)) 4 then ''Yes'' else ''No''), Newline])"
proof (intro conjI allI impI)
  show "showFuseFlags whichFuse hFuse s =
     s\<lparr>serial := serial s @
       [PrintStr ''Bootloader in use: '', PrintStr (if \<not> bit whichFuse 0 then ''Yes'' else ''No''), Newline,
        PrintStr ''EEPROM preserved through erase: '', PrintStr (if \<not> bit hFuse 3 then ''Yes'' else ''No''), Newline,
        PrintStr ''Watchdog timer always on: '', PrintStr (if \<not> bit hFuse 4 then ''Yes'' else ''No''), Newline]\<rparr>"
    by (rule showFuseFlags_eq')
next
  fix addr len t'
  assume r: "readBootloader_region rx t = Inr (addr, len, t')"
  note nz = readBootloader_region_InrD(1) [OF r] and sel = readBootloader_region_InrD(2) [OF r]
  from readBootloader_region_Inr [OF nz sel, of rx] r
  have sent: "sent t' = sent t @ [readHighFuseByte, readHighFuseByteArg2, 0, 0] @
         (if fuseWithBootloaderSize (currentSignature t) = lowFuse
            then [readLowFuseByte, readLowFuseByteArg2, 0, 0]
          else if fuseWithBootloaderSize (currentSignature t) = highFuse
            then [readHighFuseByte, readHighFuseByteArg2, 0, 0]
          else [readExtendedFuseByte, readExtendedFuseByteArg2, 0, 0])"
    and lines: "take 12 (drop (length (serial t)) (serial t')) =
       [PrintStr ''Bootloader in use: '',
        PrintStr (if \<not> bit (rx (length (sent t) + 7)) 0 then ''Yes'' else ''No''), Newline,
        PrintStr ''EEPROM preserved through erase: '',
        PrintStr (if \<not> bit (rx (length (sent t) + 3)) 3 then ''Yes'' else ''No''), Newline,
        PrintStr ''Watchdog timer always on: '',
        PrintStr (if \<not> bit (rx (length (sent t) + 3)) 4 then ''Yes'' else ''No''), Newline,
        PrintStr ''Bootloader is '',
        PrintNum (unat (bootloaderLength (baseBootSize (currentSignature t)) (rx (length (sent t) + 7)))) 10,
        PrintStr '' bytes starting at '']"
    by auto
  from sent show "issued t t' = [readHighFuseByte, readHighFuseByteArg2, 0, 0] @
          (if fuseWithBootloaderSize (currentSignature t) = lowFuse
             then [readLowFuseByte, readLowFuseByteArg2, 0, 0]
           else if fuseWithBootloaderSize (currentSignature t) = highFuse
             then [readHighFuseByte, readHighFuseByteArg2, 0, 0]
           else [readExtendedFuseByte, readExtendedFuseByteArg2, 0, 0])"
    by (simp add: issued_def)
  have "take 9 (drop (length (serial t)) (serial t')) =
        take 9 (take 12 (drop (length (serial t)) (serial t')))"
    by simp
  also note lines
  finally show "take 9 (drop (length (serial t)) (serial t')) =
          [PrintStr ''Bootloader in use: '',
           PrintStr (if \<not> bit (rx (length (sent t) + 7)) 0 then ''Yes'' else ''No''), Newline,
           PrintStr ''EEPROM preserved through erase: '',
           PrintStr (if \<not> bit (rx (length (sent t) + 3)) 3 then ''Yes'' else ''No''), Newline,
           PrintStr ''Watchdog timer always on: '',
           PrintStr (if \<not> bit (rx (length (sent t) + 3)) 4 then ''Yes'' else ''No''), Newline]"
    by simp
qed

theorem showFuseFlags_decodes_witness:
  "(case readBootloader_region atmega328p (getSignature atmega328p initial) of
      Inl t' \<Rightarrow> False
    | Inr (addr, len, t') \<Rightarrow>
        issued (getSignature atmega328p initial) t' =
          [readHighFuseByte, readHighFuseByteArg2, 0, 0, readHighFuseByte, readHighFuseByteArg2, 0, 0] \<and>
        take 9 (drop (length (serial (getSignature atmega328p initial))) (serial t')) =
          [PrintStr ''Bootloader in use: '', PrintStr ''Yes'', Newline,
           PrintStr ''EEPROM preserved through erase: '', PrintStr ''No'', Newline,
           PrintStr ''Watchdog timer always on: '', PrintStr ''No'', Newline])"
proof -
  from region_atmega328p obtain t'
    where r: "readBootloader_region atmega328p (getSignature atmega328p initial) = Inr (32256, 512, t')"
    by blast
  have bits: "\<not> bit (0xDE :: byte) 0" "bit (0xDE :: byte) 3" "bit (0xDE :: byte) 4"
    by (simp_all add: bit_numeral_word_iff)
  from showFuseFlags_decodes [of 0 0 initial atmega328p "getSignature atmega328p initial"] r
  show ?thesis
    using bits by (simp add: getSignature_atmega328p entry_ATmega328P atmega328p_def fuse_defs)
qed

section \<open>Flash reads, fuse bytes and the search of the signature table\<close>

lemma readFlash_eq:
  "readFlash rx addr s =
     (let MSB = (ucast (drop_bit 16 addr AND 0xFF) :: byte);
          pre = (if MSB \<noteq> lastAddressMSB s then [loadExtendedAddressByte, 0, MSB, 0] else [])
      in (rx (length (sent s) + length pre + 3),
          s\<lparr>lastAddressMSB := MSB,
            sent := sent s @ pre @
              [readProgramMemory OR (if addr AND 1 \<noteq> 0 then 0x08 else 0),
               highByte (drop_bit 1 addr), lowByte (drop_bit 1 addr), 0]\<rparr>))"
  by (simp add: readFlash_def program_eq Let_def add.commute)

lemma getFuseBytes_eq:
  "getFuseBytes rx s =
     s\<lparr>sent := sent s @
         [readLowFuseByte, readLowFuseByteArg2, 0, 0, readHighFuseByte, readHighFuseByteArg2, 0, 0,
          readExtendedFuseByte, readExtendedFuseByteArg2, 0, 0, readLockByte, readLockByteArg2, 0, 0,
          readCalibrationByte, 0, 0, 0],
       serial := serial s @
         [PrintStr ''LFuse = '', PrintStr (showHex_buf (rx (length (sent s) + 3))), Newline,
          PrintStr ''HFuse = '', PrintStr (showHex_buf (rx (length (sent s) + 7))), Newline,
          PrintStr ''EFuse = '', PrintStr (showHex_buf (rx (length (sent s) + 11))), Newline,
          PrintStr ''Lock byte = '', PrintStr (showHex_buf (rx (length (sent s) + 15))), Newline,
          PrintStr ''Clock calibration = '', PrintStr (showHex_buf (rx (length (sent s) + 19))), Newline]\<rparr>"
  by (simp add: getFuseBytes_def program_eq showHex_eq Serial_print_def add.commute)

lemma sent_initial: "sent initial = []"
  by (simp add: initial_def)

lemma scanSignatures_first:
  assumes "i < length tbl" and "memcmp_eq sg (sig (tbl ! i)) 3"
    and "\<forall>k<i. \<not> memcmp_eq sg (sig (tbl ! k)) 3"
  shows "foundSig (scanSignatures sg tbl j s) = j + int i \<and>
         currentSignature (scanSignatures sg tbl j s) = tbl ! i"
  using assms
proof (induction tbl arbitrary: i j s)
  case Nil
  then show ?case by simp
next
  case (Cons e es)
  show ?case
  proof (cases i)
    case 0
    with Cons.prems show ?thesis
      by (simp add: Serial_println_def Serial_print_def Serial_newline_def Serial_printNum_def)
  next
    case (Suc i')
    with Cons.prems have nomatch: "\<not> memcmp_eq sg (sig e) 3" by auto
    from Suc Cons.prems have "i' < length es" "memcmp_eq sg (sig (es ! i')) 3"
      "\<forall>k<i'. \<not> memcmp_eq sg (sig (es ! k)) 3" by auto
    from Cons.IH [OF this] nomatch Suc show ?thesis by simp
  qed
qed

lemma scanSignatures_none:
  assumes "\<forall>e\<in>set tbl. \<not> memcmp_eq sg (sig e) 3"
  shows "scanSignatures sg tbl j s =
         Serial_println ''Unrecogized signature.''
           (if tbl = [] then s else s\<lparr>currentSignature := last tbl\<rparr>)"
  using assms
  by (induction tbl arbitrary: j s) simp_all

lemma signatures_distinct: "distinct (map sig signatures)"
  by (simp add: signatures_def)

lemma signatures_three: "\<forall>e\<in>set signatures. length (sig e) = 3"
  by (simp add: signatures_def)

lemma signatures_last:
  "signatures \<noteq> [] \<and> desc (last signatures) = ''ATmega8A'' \<and> sig (last signatures) = [0x1E, 0x93, 0x07]"
  by (simp add: signatures_def)

lemma length_signatures: "length signatures = 31"
  by (simp add: signatures_def)

lemma memcmp_eq_three:
  "length a = 3 \<Longrightarrow> length b = 3 \<Longrightarrow> memcmp_eq a b 3 = (a = b)"
  by (simp add: memcmp_eq_def)

lemma signatures_first_match:
  assumes i: "i < length signatures" and sg: "sg = sig (signatures ! i)"
  shows "memcmp_eq sg (sig (signatures ! i)) 3 \<and> (\<forall>k<i. \<not> memcmp_eq sg (sig (signatures ! k)) 3)"
proof (intro conjI allI impI)
  show "memcmp_eq sg (sig (signatures ! i)) 3" using sg by (simp add: memcmp_eq_def)
next
  fix k assume k: "k < i"
  with i have kl: "k < length signatures" by simp
  from signatures_three i kl have len: "length (sig (signatures ! i)) = 3" "length (sig (signatures ! k)) = 3"
    by simp_all
  from signatures_distinct i kl k have "map sig signatures ! k \<noteq> map sig signatures ! i"
    by (auto simp only: distinct_conv_nth length_map)
  with i kl have "sig (signatures ! k) \<noteq> sig (signatures ! i)" by simp
  with len sg show "\<not> memcmp_eq sg (sig (signatures ! k)) 3"
    by (auto simp: memcmp_eq_three)
qed

lemma signatures_no_match:
  assumes "length sg = 3" and "sg \<notin> sig ` set signatures"
  shows "\<forall>e\<in>set signatures. \<not> memcmp_eq sg (sig e) 3"
proof
  fix e assume e: "e \<in> set signatures"
  with signatures_three have "length (sig e) = 3" by blast
  with assms(1) have "memcmp_eq sg (sig e) 3 = (sg = sig e)" by (rule memcmp_eq_three)
  with assms(2) e show "\<not> memcmp_eq sg (sig e) 3" by auto
qed

lemma getSignature_found:
  assumes "i < length signatures"
    and "[rx (length (sent s) + 3), rx (length (sent s) + 7), rx (length (sent s) + 11)] = sig (signatures ! i)"
  shows "foundSig (getSignature rx s) = int i \<and> currentSignature (getSignature rx s) = signatures ! i"
proof -
  from signatures_first_match [OF assms]
  have "memcmp_eq [rx (length (sent s) + 3), rx (length (sent s) + 7), rx (length (sent s) + 11)]
          (sig (signatures ! i)) 3"
    and "\<forall>k<i. \<not> memcmp_eq [rx (length (sent s) + 3), rx (length (sent s) + 7), rx (length (sent s) + 11)]
          (sig (signatures ! k)) 3"
    by simp_all
  from scanSignatures_first [OF assms(1) this] show ?thesis
    by (simp add: getSignature_eq)
qed

lemma getSignature_unknown:
  assumes "[rx (length (sent s) + 3), rx (length (sent s) + 7), rx (length (sent s) + 11)]
           \<notin> sig ` set signatures"
  shows "foundSig (getSignature rx s) = -1 \<and> currentSignature (getSignature rx s) = last signatures"
proof -
  have "\<forall>e\<in>set signatures.
          \<not> memcmp_eq [rx (length (sent s) + 3), rx (length (sent s) + 7), rx (length (sent s) + 11)] (sig e) 3"
    using assms by (intro signatures_no_match) simp_all
  from scanSignatures_none [OF this] signatures_last show ?thesis
    by (simp add: getSignature_eq Serial_println_def Serial_print_def Serial_newline_def)
qed

lemma setup_report_unknown:
  "foundSig s = -1 \<Longrightarrow> setup_report rx M s = readProgram rx (getFuseBytes rx s)"
  by (simp add: setup_report_def Let_def getFuseBytes_eq)

lemma setup_report_known:
  "foundSig s \<noteq> -1 \<Longrightarrow> setup_report rx M s = readProgram rx (readBootloader rx M (getFuseBytes rx s))"
  by (simp add: setup_report_def Let_def getFuseBytes_eq)

lemma erased_unknown: "[erased 3, erased 7, erased 11] \<notin> sig ` set signatures"
  by (simp add: erased_def signatures_def)

subsection \<open>What does not depend on currentSignature\<close>

lemma hexDump_step_currentSignature:
  "hexDump_step rx a k (s\<lparr>currentSignature := c\<rparr>) = (hexDump_step rx a k s)\<lparr>currentSignature := c\<rparr>"
  by (simp add: hexDump_step_def readFlash_eq showHex_eq Serial_print_def Serial_printNum_def
      Serial_newline_def Let_def)

lemma hexDump_currentSignature:
  "hexDump rx a len (s\<lparr>currentSignature := c\<rparr>) = (hexDump rx a len s)\<lparr>currentSignature := c\<rparr>"
proof -
  have "fold (hexDump_step rx a) ks (s\<lparr>currentSignature := c\<rparr>) =
        (fold (hexDump_step rx a) ks s)\<lparr>currentSignature := c\<rparr>" for ks
    by (induction ks arbitrary: s) (simp_all add: hexDump_step_currentSignature)
  then show ?thesis by (simp add: hexDump_def)
qed

lemma readProgram_currentSignature:
  "readProgram rx (s\<lparr>currentSignature := c\<rparr>) = (readProgram rx s)\<lparr>currentSignature := c\<rparr>"
proof -
  have "Serial_newline (Serial_println ''First 256 bytes of program memory:''
          (Serial_newline (s\<lparr>currentSignature := c\<rparr>))) =
        (Serial_newline (Serial_println ''First 256 bytes of program memory:''
          (Serial_newline s)))\<lparr>currentSignature := c\<rparr>"
    by (simp add: Serial_println_def Serial_print_def Serial_newline_def)
  then show ?thesis
    by (simp add: readProgram_def Let_def hexDump_currentSignature) (simp add: Serial_newline_def)
qed

lemma setup_report_currentSignature:
  assumes "foundSig u = -1"
  shows "setup_report rx M (u\<lparr>currentSignature := c\<rparr>) = (setup_report rx M u)\<lparr>currentSignature := c\<rparr>"
proof -
  have "getFuseBytes rx (u\<lparr>currentSignature := c\<rparr>) = (getFuseBytes rx u)\<lparr>currentSignature := c\<rparr>"
    by (simp add: getFuseBytes_eq)
  with assms show ?thesis
    by (simp add: setup_report_unknown readProgram_currentSignature)
qed

section \<open>Identifying the device\<close>

text \<open>
  C7. \<open>sg\<close> are the three signature bytes the chip answers. If they are the signature
  of entry \<open>i\<close> of the table, \<open>getSignature\<close> leaves exactly this entry in
  \<open>currentSignature\<close> and \<open>i\<close> in \<open>foundSig\<close>, and \<open>setup\<close> goes on with
  \<open>readBootloader\<close>. The search is linear and the first match wins: on any table,
  searched from index \<open>j\<close>, the first entry whose three bytes agree is the one found.
  If the bytes are the signature of no entry, \<open>foundSig\<close> stays -1 and \<open>setup\<close> shows
  the fuse bytes and the program memory without calling \<open>readBootloader\<close>.
\<close>

theorem getSignature_roundtrip:
  "let sg = [rx (length (sent s) + 3), rx (length (sent s) + 7), rx (length (sent s) + 11)];
       t = getSignature rx s
   in (\<forall>i<length signatures. sg = sig (signatures ! i) \<longrightarrow>
         foundSig t = int i \<and> currentSignature t = signatures ! i \<and>
         setup_detect rx M s = readProgram rx (readBootloader rx M (getFuseBytes rx t))) \<and>
      (\<forall>tbl i j u. i < length tbl \<and> memcmp_eq sg (sig (tbl ! i)) 3 \<and>
           (\<forall>k<i. \<not> memcmp_eq sg (sig (tbl ! k)) 3) \<longrightarrow>
         foundSig (scanSignatures sg tbl j u) = j + int i \<and>
         currentSignature (scanSignatures sg tbl j u) = tbl ! i) \<and>
      (sg \<notin> sig ` set signatures \<longrightarrow>
         foundSig t = -1 \<and> setup_detect rx M s = readProgram rx (getFuseBytes rx t))"
proof -
  define sg where "sg = [rx (length (sent s) + 3), rx (length (sent s) + 7), rx (length (sent s) + 11)]"
  define t where "t = getSignature rx s"
  have known: "foundSig t = int i \<and> currentSignature t = signatures ! i \<and>
         setup_detect rx M s = readProgram rx (readBootloader rx M (getFuseBytes rx t))"
    if "i < length signatures" "sg = sig (signatures ! i)" for i
  proof -
    from getSignature_found [of i rx s] that
    have f: "foundSig t = int i" and c: "currentSignature t = signatures ! i"
      by (simp_all add: sg_def t_def)
    from f have "foundSig t \<noteq> -1" by simp
    then have "setup_report rx M t = readProgram rx (readBootloader rx M (getFuseBytes rx t))"
      by (rule setup_report_known)
    with f c show ?thesis by (simp add: setup_detect_def t_def)
  qed
  have first: "foundSig (scanSignatures sg tbl j u) = j + int i \<and>
         currentSignature (scanSignatures sg tbl j u) = tbl ! i"
    if "i < length tbl \<and> memcmp_eq sg (sig (tbl ! i)) 3 \<and> (\<forall>k<i. \<not> memcmp_eq sg (sig (tbl ! k)) 3)"
    for tbl i j u
    using that by (intro scanSignatures_first) simp_all
  have unknown: "foundSig t = -1 \<and> setup_detect rx M s = readProgram rx (getFuseBytes rx t)"
    if "sg \<notin> sig ` set signatures"
  proof -
    from getSignature_unknown [of rx s] that have f: "foundSig t = -1"
      by (simp add: sg_def t_def)
    then have "setup_report rx M t = readProgram rx (getFuseBytes rx t)"
      by (rule setup_report_unknown)
    with f show ?thesis by (simp add: setup_detect_def t_def)
  qed
  from known first unknown show ?thesis
    unfolding Let_def sg_def [symmetric] t_def [symmetric] by blast
qed

theorem getSignature_roundtrip_witness:
  "foundSig (getSignature atmega328p initial) = 9 \<and>
   currentSignature (getSignature atmega328p initial) = signatures ! 9 \<and>
   sig (signatures ! 9) = [atmega328p 3, atmega328p 7, atmega328p 11] \<and>
   foundSig (getSignature erased initial) = -1 \<and>
   setup_detect erased keep_bytes initial =
     readProgram erased (getFuseBytes erased (getSignature erased initial))"
proof -
  have sg: "[atmega328p 3, atmega328p 7, atmega328p 11] = sig (signatures ! 9)"
    by (simp add: atmega328p_def entry_ATmega328P)
  have known: "foundSig (getSignature atmega328p initial) = 9 \<and>
      currentSignature (getSignature atmega328p initial) = signatures ! 9"
    using getSignature_roundtrip [of atmega328p initial keep_bytes, unfolded Let_def,
        THEN conjunct1, rule_format, of 9] sg
    by (simp add: sent_initial length_signatures)
  have unknown: "foundSig (getSignature erased initial) = -1 \<and>
      setup_detect erased keep_bytes initial =
        readProgram erased (getFuseBytes erased (getSignature erased initial))"
    using getSignature_roundtrip [of erased initial keep_bytes, unfolded Let_def,
        THEN conjunct2, THEN conjunct2] erased_unknown
    by (simp add: sent_initial)
  from sg known unknown show ?thesis by simp
qed

text \<open>
  C9. When the chip answers the signature \<open>1E 95 0F\<close>, the descriptor found is that
  of the ATmega328P: 32768 bytes of flash, a base bootloader size of 512, pages of 128
  bytes, the bootloader size in the high fuse. With the high fuse \<open>0xDE\<close> the
  bootloader is in use, the multiplier is 1, and the region starts at 32256 and is 512
  bytes long.
\<close>

theorem ATmega328P_scenario:
  assumes "rx (length (sent s) + 3) = 0x1E" and "rx (length (sent s) + 7) = 0x95"
    and "rx (length (sent s) + 11) = 0x0F"
  shows "let t = getSignature rx s; d = currentSignature t
         in foundSig t = 9 \<and> desc d = ''ATmega328P'' \<and> flashSize d = 32768 \<and>
            baseBootSize d = 512 \<and> pageSize d = 128 \<and> fuseWithBootloaderSize d = highFuse \<and>
            bootloaderLength 512 0xDE = 512 * 1 \<and>
            (\<forall>u. currentSignature u = d \<and> rx (length (sent u) + 3) = 0xDE \<and>
                  rx (length (sent u) + 7) = 0xDE \<longrightarrow>
               (\<exists>u'. readBootloader_region rx u = Inr (32256, 512, u') \<and>
                  take 3 (drop (length (serial u)) (serial u')) =
                    [PrintStr ''Bootloader in use: '', PrintStr ''Yes'', Newline]))"
proof -
  define t where "t = getSignature rx s"
  define d where "d = currentSignature t"
  have t: "foundSig t = 9" and d: "d = signatures ! 9"
    using assms by (simp_all add: t_def d_def getSignature_eq scan_ATmega328P)
  have len: "bootloaderLength 512 0xDE = 512"
    by (simp add: bootloaderLength_def)
  have region: "\<exists>u'. readBootloader_region rx u = Inr (32256, 512, u') \<and>
                  take 3 (drop (length (serial u)) (serial u')) =
                    [PrintStr ''Bootloader in use: '', PrintStr ''Yes'', Newline]"
    if u: "currentSignature u = d \<and> rx (length (sent u) + 3) = 0xDE \<and> rx (length (sent u) + 7) = 0xDE"
    for u
  proof -
    from u d have "baseBootSize (currentSignature u) \<noteq> 0"
      and "fuseWithBootloaderSize (currentSignature u) \<in> {lowFuse, highFuse, extFuse}"
      by (simp_all add: entry_ATmega328P)
    from readBootloader_region_Inr [OF this, of rx] obtain u'
      where r: "readBootloader_region rx u = Inr (32256, 512, u')"
        and "take 12 (drop (length (serial u)) (serial u')) =
          [PrintStr ''Bootloader in use: '', PrintStr ''Yes'', Newline,
           PrintStr ''EEPROM preserved through erase: '', PrintStr ''No'', Newline,
           PrintStr ''Watchdog timer always on: '', PrintStr ''No'', Newline,
           PrintStr ''Bootloader is '', PrintNum 512 10, PrintStr '' bytes starting at '']"
      using u d len by (auto simp: entry_ATmega328P bit_numeral_word_iff)
    then have "take 3 (take 12 (drop (length (serial u)) (serial u'))) =
          [PrintStr ''Bootloader in use: '', PrintStr ''Yes'', Newline]"
      by (simp only: take.simps list.simps eval_nat_numeral) simp
    with r show ?thesis by simp
  qed
  from t d len region show ?thesis
    unfolding Let_def t_def [symmetric] d_def [symmetric]
    by (auto simp: entry_ATmega328P)
qed

theorem ATmega328P_scenario_witness:
  "atmega328p (length (sent initial) + 3) = 0x1E \<and> atmega328p (length (sent initial) + 7) = 0x95 \<and>
   atmega328p (length (sent initial) + 11) = 0x0F \<and>
   desc (currentSignature (getSignature atmega328p initial)) = ''ATmega328P'' \<and>
   (\<exists>u'. readBootloader_region atmega328p (getSignature atmega328p initial) = Inr (32256, 512, u'))"
proof -
  have answers: "atmega328p (length (sent initial) + 3) = 0x1E"
    "atmega328p (length (sent initial) + 7) = 0x95" "atmega328p (length (sent initial) + 11) = 0x0F"
    by (simp_all add: sent_initial atmega328p_def)
  note all = ATmega328P_scenario [OF answers, unfolded Let_def]
  have fuse: "atmega328p (length (sent (getSignature atmega328p initial)) + 3) = 0xDE"
    "atmega328p (length (sent (getSignature atmega328p initial)) + 7) = 0xDE"
    by (simp_all add: getSignature_atmega328p atmega328p_def)
  from all have "desc (currentSignature (getSignature atmega328p initial)) = ''ATmega328P''"
    by simp
  moreover from all fuse
  have "\<exists>u'. readBootloader_region atmega328p (getSignature atmega328p initial) = Inr (32256, 512, u')"
    by blast
  ultimately show ?thesis using answers by simp
qed

text \<open>
  C10. After a signature that is in no entry of the table, \<open>currentSignature\<close> is not
  cleared: it holds the last entry of the table, the ATmega8A, since every entry
  looked at is copied into it (on any table the search that finds nothing leaves the
  last entry there and \<open>foundSig\<close> as it was). Only \<open>foundSig = -1\<close> records the
  failure. What \<open>setup\<close> does after \<open>getSignature\<close> with \<open>foundSig = -1\<close> does not
  read \<open>currentSignature\<close>: with another value in it the run is the same.
\<close>

theorem getSignature_overwrites:
  "let sg = [rx (length (sent s) + 3), rx (length (sent s) + 7), rx (length (sent s) + 11)];
       t = getSignature rx s
   in (sg \<notin> sig ` set signatures \<longrightarrow>
         currentSignature t = last signatures \<and> desc (currentSignature t) = ''ATmega8A'' \<and>
         foundSig t = -1) \<and>
      (\<forall>tbl j u. tbl \<noteq> [] \<and> (\<forall>e\<in>set tbl. \<not> memcmp_eq sg (sig e) 3) \<longrightarrow>
         currentSignature (scanSignatures sg tbl j u) = last tbl \<and>
         foundSig (scanSignatures sg tbl j u) = foundSig u) \<and>
      (\<forall>u c. foundSig u = -1 \<longrightarrow>
         setup_report rx M (u\<lparr>currentSignature := c\<rparr>) =
           (setup_report rx M u)\<lparr>currentSignature := c\<rparr>)"
proof -
  define sg where "sg = [rx (length (sent s) + 3), rx (length (sent s) + 7), rx (length (sent s) + 11)]"
  define t where "t = getSignature rx s"
  have unknown: "currentSignature t = last signatures \<and> desc (currentSignature t) = ''ATmega8A'' \<and>
         foundSig t = -1" if "sg \<notin> sig ` set signatures"
    using getSignature_unknown [of rx s] that signatures_last by (simp add: sg_def t_def)
  have scan: "currentSignature (scanSignatures sg tbl j u) = last tbl \<and>
         foundSig (scanSignatures sg tbl j u) = foundSig u"
    if "tbl \<noteq> [] \<and> (\<forall>e\<in>set tbl. \<not> memcmp_eq sg (sig e) 3)" for tbl j u
  proof -
    from that have "\<forall>e\<in>set tbl. \<not> memcmp_eq sg (sig e) 3" by simp
    from scanSignatures_none [OF this, of j u] that show ?thesis
      by (simp add: Serial_println_def Serial_print_def Serial_newline_def)
  qed
  have guarded: "setup_report rx M (u\<lparr>currentSignature := c\<rparr>) =
           (setup_report rx M u)\<lparr>currentSignature := c\<rparr>" if "foundSig u = -1" for u c
    using that by (rule setup_report_currentSignature)
  from unknown scan guarded show ?thesis
    unfolding Let_def sg_def [symmetric] t_def [symmetric] by blast
qed

theorem getSignature_overwrites_witness:
  "[erased 3, erased 7, erased 11] \<notin> sig ` set signatures \<and>
   currentSignature (getSignature erased initial) = last signatures \<and>
   desc (currentSignature (getSignature erased initial)) = ''ATmega8A'' \<and>
   foundSig (getSignature erased initial) = -1 \<and>
   setup_report erased keep_bytes ((getSignature erased initial)\<lparr>currentSignature := signatures ! 9\<rparr>) =
     (setup_report erased keep_bytes (getSignature erased initial))\<lparr>currentSignature := signatures ! 9\<rparr>"
proof -
  note all = getSignature_overwrites [of erased initial keep_bytes, unfolded Let_def]
  have unknown: "currentSignature (getSignature erased initial) = last signatures \<and>
      desc (currentSignature (getSignature erased initial)) = ''ATmega8A'' \<and>
      foundSig (getSignature erased initial) = -1"
  proof -
    from erased_unknown
    have "[erased (length (sent initial) + 3), erased (length (sent initial) + 7),
           erased (length (sent initial) + 11)] \<notin> sig ` set signatures"
      by (simp add: sent_initial)
    with all [THEN conjunct1] show ?thesis by blast
  qed
  then have "foundSig (getSignature erased initial) = -1" by simp
  with all [THEN conjunct2, THEN conjunct2, rule_format, of "getSignature erased initial" "signatures ! 9"]
  have "setup_report erased keep_bytes ((getSignature erased initial)\<lparr>currentSignature := signatures ! 9\<rparr>) =
     (setup_report erased keep_bytes (getSignature erased initial))\<lparr>currentSignature := signatures ! 9\<rparr>"
    by simp
  with unknown erased_unknown show ?thesis by blast
qed

section \<open>Naming the bootloader\<close>

lemma fold_showHex:
  "fold (\<lambda>b. showHex b False) bs s = s\<lparr>serial := serial s @ map (\<lambda>b. PrintStr (showHex_buf b)) bs\<rparr>"
  by (induction bs arbitrary: s) (simp_all add: showHex_eq)

lemma scanDatabase_find:
  "scanDatabase db digest s =
     (case find (\<lambda>e. memcmp_eq (md5sum e) digest 16) db of
        None \<Rightarrow> (False, s)
      | Some e \<Rightarrow>
          (True, s\<lparr>serial := serial s @ PrintStr ''Bootloader name: '' #
                     map PrintChar (takeWhile (\<lambda>c. c \<noteq> CHR 0x00) (filename e)) @ [Newline]\<rparr>))"
  by (induction db) (simp_all add: Serial_print_def printProgStr_def Serial_newline_def)

lemma find_first:
  "i < length xs \<Longrightarrow> P (xs ! i) \<Longrightarrow> \<forall>k<i. \<not> P (xs ! k) \<Longrightarrow> find P xs = Some (xs ! i)"
  by (auto simp: find_Some_iff)

lemma deviceDatabase_10:
  "deviceDatabase ! 10 = \<lparr>md5sum = [0x55, 0x71, 0xA1, 0x8C, 0x81, 0x3B, 0x9E, 0xD2,
      0xE6, 0x3B, 0xC9, 0x3B, 0x9A, 0xB1, 0x79, 0x53], filename = ''optiboot_atmega328_IDE_0022''\<rparr>"
  by (simp add: deviceDatabase_def)

lemma find_optiboot:
  "find (\<lambda>e. memcmp_eq (md5sum e) [0x55, 0x71, 0xA1, 0x8C, 0x81, 0x3B, 0x9E, 0xD2,
      0xE6, 0x3B, 0xC9, 0x3B, 0x9A, 0xB1, 0x79, 0x53] 16) deviceDatabase = Some (deviceDatabase ! 10)"
  by (simp add: deviceDatabase_def memcmp_eq_def)

lemma find_erased:
  "find (\<lambda>e. memcmp_eq (md5sum e) (replicate 16 0xFF) 16) deviceDatabase = None"
  by code_simp

text \<open>
  C6. The end of \<open>readBootloader\<close> always shows the 16 bytes of the sum first. Then,
  if all bytes of the region were \<open>0xFF\<close>, it prints that there is no bootloader and
  does not look at the database at all. Otherwise it searches the database from the
  front for an entry with the same 16 bytes: the first such entry gives the name
  printed, and when there is none it prints that the sum is not known. Nothing but
  the serial output changes.
\<close>

theorem readBootloader_name_verdict:
  "readBootloader_name db digest allFF s =
     s\<lparr>serial := serial s @ map (\<lambda>b. PrintStr (showHex_buf b)) (take 16 digest) @ [Newline] @
        (if allFF then [PrintStr ''No bootloader (all 0xFF)'', Newline]
         else case find (\<lambda>e. memcmp_eq (md5sum e) digest 16) db of
                None \<Rightarrow> [PrintStr ''Bootloader MD5 sum not known.'', Newline]
              | Some e \<Rightarrow> PrintStr ''Bootloader name: '' #
                  map PrintChar (takeWhile (\<lambda>c. c \<noteq> CHR 0x00) (filename e)) @ [Newline])\<rparr>
   \<and> (\<forall>i<length db. take 16 (md5sum (db ! i)) = take 16 digest \<and>
          (\<forall>k<i. take 16 (md5sum (db ! k)) \<noteq> take 16 digest) \<longrightarrow>
          find (\<lambda>e. memcmp_eq (md5sum e) digest 16) db = Some (db ! i))
   \<and> ((\<forall>e\<in>set db. take 16 (md5sum e) \<noteq> take 16 digest) \<longrightarrow>
          find (\<lambda>e. memcmp_eq (md5sum e) digest 16) db = None)"
proof (intro conjI allI impI)
  show "readBootloader_name db digest allFF s =
     s\<lparr>serial := serial s @ map (\<lambda>b. PrintStr (showHex_buf b)) (take 16 digest) @ [Newline] @
        (if allFF then [PrintStr ''No bootloader (all 0xFF)'', Newline]
         else case find (\<lambda>e. memcmp_eq (md5sum e) digest 16) db of
                None \<Rightarrow> [PrintStr ''Bootloader MD5 sum not known.'', Newline]
              | Some e \<Rightarrow> PrintStr ''Bootloader name: '' #
                  map PrintChar (takeWhile (\<lambda>c. c \<noteq> CHR 0x00) (filename e)) @ [Newline])\<rparr>"
    by (simp add: readBootloader_name_def fold_showHex scanDatabase_find Serial_newline_def
        Serial_println_def Serial_print_def Let_def split: option.split)
next
  fix i
  assume "i < length db" and "take 16 (md5sum (db ! i)) = take 16 digest \<and>
          (\<forall>k<i. take 16 (md5sum (db ! k)) \<noteq> take 16 digest)"
  then show "find (\<lambda>e. memcmp_eq (md5sum e) digest 16) db = Some (db ! i)"
    by (intro find_first) (simp_all add: memcmp_eq_def)
next
  assume "\<forall>e\<in>set db. take 16 (md5sum e) \<noteq> take 16 digest"
  then show "find (\<lambda>e. memcmp_eq (md5sum e) digest 16) db = None"
    by (simp add: find_None_iff memcmp_eq_def)
qed

theorem readBootloader_name_verdict_witness:
  "serial (readBootloader_name deviceDatabase [0x55, 0x71, 0xA1, 0x8C, 0x81, 0x3B, 0x9E, 0xD2,
      0xE6, 0x3B, 0xC9, 0x3B, 0x9A, 0xB1, 0x79, 0x53] False initial) =
     map (\<lambda>b. PrintStr (showHex_buf b)) [0x55, 0x71, 0xA1, 0x8C, 0x81, 0x3B, 0x9E, 0xD2,
      0xE6, 0x3B, 0xC9, 0x3B, 0x9A, 0xB1, 0x79, 0x53] @
     [Newline, PrintStr ''Bootloader name: ''] @ map PrintChar ''optiboot_atmega328_IDE_0022'' @ [Newline]
   \<and> serial (readBootloader_name deviceDatabase (replicate 16 0xFF) False initial) =
     replicate 16 (PrintStr (showHex_buf 0xFF)) @
     [Newline, PrintStr ''Bootloader MD5 sum not known.'', Newline]
   \<and> serial (readBootloader_name deviceDatabase (replicate 16 0xFF) True initial) =
     replicate 16 (PrintStr (showHex_buf 0xFF)) @
     [Newline, PrintStr ''No bootloader (all 0xFF)'', Newline]"
proof -
  have init: "serial initial = []" by (simp add: initial_def)
  note v = readBootloader_name_verdict [THEN conjunct1]
  have "serial (readBootloader_name deviceDatabase [0x55, 0x71, 0xA1, 0x8C, 0x81, 0x3B, 0x9E, 0xD2,
      0xE6, 0x3B, 0xC9, 0x3B, 0x9A, 0xB1, 0x79, 0x53] False initial) =
     map (\<lambda>b. PrintStr (showHex_buf b)) [0x55, 0x71, 0xA1, 0x8C, 0x81, 0x3B, 0x9E, 0xD2,
      0xE6, 0x3B, 0xC9, 0x3B, 0x9A, 0xB1, 0x79, 0x53] @
     [Newline, PrintStr ''Bootloader name: ''] @ map PrintChar ''optiboot_atmega328_IDE_0022'' @ [Newline]"
    by (simp add: v find_optiboot deviceDatabase_10 init)
  moreover
  have "serial (readBootloader_name deviceDatabase (replicate 16 0xFF) False initial) =
     replicate 16 (PrintStr (showHex_buf 0xFF)) @
     [Newline, PrintStr ''Bootloader MD5 sum not known.'', Newline]"
    by (simp add: v find_erased init map_replicate)
  moreover
  have "serial (readBootloader_name deviceDatabase (replicate 16 0xFF) True initial) =
     replicate 16 (PrintStr (showHex_buf 0xFF)) @
     [Newline, PrintStr ''No bootloader (all 0xFF)'', Newline]"
    by (simp add: v init map_replicate)
  ultimately show ?thesis by simp
qed

section \<open>The sum of the bootloader\<close>

lemma region_empty: "region addr 0 = []"
  by (simp add: region_def)

lemma region_Cons:
  assumes "len \<noteq> 0"
  shows "region addr len = addr # region (addr + 1) (len - 1)"
proof -
  from assms have "unat len \<noteq> 0" by (simp add: unat_eq_0)
  then have n: "unat len = Suc (unat (len - 1))"
    using assms by (simp add: unat_minus_one)
  have "map (\<lambda>k. addr + of_nat k) [0..<Suc (unat (len - 1))] =
        addr # map (\<lambda>k. addr + 1 + of_nat k) [0..<unat (len - 1)]"
    by (simp add: upt_conv_Cons map_Suc_upt [symmetric] add.assoc del: upt_Suc)
  then show ?thesis by (simp add: region_def n)
qed

lemma length_region: "length (region addr len) = unat len"
  by (simp add: region_def)

lemma nth_region: "k < unat len \<Longrightarrow> region addr len ! k = addr + of_nat k"
  by (simp add: region_def)

lemma length_readFlashes: "length (fst (readFlashes rx as s)) = length as"
  by (induction as arbitrary: s) (simp_all add: split_beta Let_def)

lemma md5_loop_reads:
  "md5_loop rx upd len addr allFF ctx s =
     (allFF \<and> (\<forall>b\<in>set (fst (readFlashes rx (region addr len) s)). b = 0xFF),
      foldl (\<lambda>c b. upd c [b]) ctx (fst (readFlashes rx (region addr len) s)),
      snd (readFlashes rx (region addr len) s))"
proof (induction rx upd len addr allFF ctx s rule: md5_loop.induct)
  case (1 rx upd len addr allFF ctx s)
  show ?case
  proof (cases "len = 0")
    case True
    then show ?thesis by (simp add: md5_loop.simps region_empty)
  next
    case False
    obtain mem s1 where r: "readFlash rx addr s = (mem, s1)" by (cases "readFlash rx addr s")
    from "1.IH" [OF False r [symmetric] refl refl refl] False r show ?thesis
      by (subst md5_loop.simps) (auto simp: region_Cons split_beta Let_def)
  qed
qed

lemma all_FF_replicate:
  assumes "length bytes = n" and "\<forall>b\<in>set bytes. b = x"
  shows "bytes = replicate n x"
proof (rule replicate_eqI)
  show "length bytes = n" by (rule assms(1))
next
  fix y assume "y \<in> set bytes"
  with assms(2) show "y = x" by blast
qed

lemma foldl_update_stream:
  assumes "\<And>ctx. upd ctx [] = ctx" and "\<And>ctx xs ys. upd ctx (xs @ ys) = upd (upd ctx xs) ys"
  shows "foldl (\<lambda>c b. upd c [b]) ctx bytes = upd ctx bytes"
proof (induction bytes rule: rev_induct)
  case Nil
  then show ?case by (simp add: assms(1))
next
  case (snoc b bytes)
  then show ?case by (simp add: assms(2))
qed

lemma unat_add_of_nat:
  fixes addr :: "32 word"
  assumes "unat addr + j < 2 ^ 32"
  shows "unat (addr + of_nat j) = unat addr + j"
proof -
  from assms have j: "j < 2 ^ 32" by simp
  then have "unat (of_nat j :: 32 word) = j"
    by (simp add: unat_of_nat)
  with assms show ?thesis
    by (simp add: unat_word_ariths)
qed

lemma region_ascending:
  assumes "unat addr + unat len \<le> 2 ^ 32"
  shows "sorted_wrt (<) (region addr len)"
proof -
  have "addr + of_nat i < addr + of_nat j" if "i < j" "j < unat len" for i j
  proof -
    have "unat addr + j < 2 ^ 32" "unat addr + i < 2 ^ 32" using assms that by simp_all
    then have "unat (addr + of_nat j) = unat addr + j" "unat (addr + of_nat i) = unat addr + i"
      by (simp_all only: unat_add_of_nat)
    with that show ?thesis by (simp add: word_less_nat_alt)
  qed
  then show ?thesis
    by (simp add: region_def sorted_wrt_map sorted_wrt_iff_nth_less)
qed

lemma readFlashes_erased:
  "readFlashes erased [32256, 32257, 32258] (initial\<lparr>currentSignature := signatures ! 9\<rparr>) =
     ([0xFF, 0xFF, 0xFF],
      initial\<lparr>currentSignature := signatures ! 9,
        sent := [readProgramMemory, 0x3F, 0, 0, readProgramMemory OR 8, 0x3F, 0, 0,
                 readProgramMemory, 0x3F, 1, 0]\<rparr>)"
  by (simp add: readFlash_eq erased_def initial_def highByte_def lowByte_def Let_def)

text \<open>
  C5. The loop that sums the bootloader reads the \<open>len\<close> bytes of the region, each
  once, at the addresses \<open>addr\<close>, \<open>addr + 1\<close>, ... in this order (ascending as long
  as the region does not run past the end of the 32-bit address space), and never
  stops early: its result is that of the \<open>len\<close> flash reads done one after the other.
  Every byte read is handed to \<open>md5_update\<close>; \<open>allFF\<close> is true at the end iff every
  byte read was \<open>0xFF\<close>. When they all were, the sum is that of \<open>len\<close> bytes \<open>0xFF\<close>
  and \<open>allFF\<close> is true. For an MD5 code that treats its input as a stream, feeding
  the bytes one by one is the same as feeding them at once.
\<close>

theorem readBootloader_md5_whole_region:
  "let reads = readFlashes rx (region addr len) s; bytes = fst reads;
       result = readBootloader_md5 rx M addr len s
   in result = (md5_finish M (foldl (\<lambda>ctx b. md5_update M ctx [b]) (md5_starts M) bytes),
                (\<forall>b\<in>set bytes. b = 0xFF), snd reads) \<and>
      length bytes = unat len \<and> length (region addr len) = unat len \<and>
      (\<forall>k<unat len. region addr len ! k = addr + of_nat k) \<and>
      (unat addr + unat len \<le> 2 ^ 32 \<longrightarrow> sorted_wrt (<) (region addr len)) \<and>
      ((\<forall>b\<in>set bytes. b = 0xFF) \<longrightarrow>
         result = (md5_finish M (foldl (\<lambda>ctx b. md5_update M ctx [b]) (md5_starts M)
                                  (replicate (unat len) 0xFF)), True, snd reads)) \<and>
      ((\<forall>ctx. md5_update M ctx [] = ctx) \<and>
       (\<forall>ctx xs ys. md5_update M ctx (xs @ ys) = md5_update M (md5_update M ctx xs) ys) \<longrightarrow>
         fst result = md5_finish M (md5_update M (md5_starts M) bytes))"
proof -
  define reads where "reads = readFlashes rx (region addr len) s"
  define bytes where "bytes = fst reads"
  define result where "result = readBootloader_md5 rx M addr len s"
  have result: "result = (md5_finish M (foldl (\<lambda>ctx b. md5_update M ctx [b]) (md5_starts M) bytes),
                (\<forall>b\<in>set bytes. b = 0xFF), snd reads)"
    by (simp add: result_def readBootloader_md5_def md5_loop_reads bytes_def reads_def)
  have len: "length bytes = unat len"
    by (simp add: bytes_def reads_def length_readFlashes length_region)
  have erased: "(\<forall>b\<in>set bytes. b = 0xFF) \<longrightarrow>
      result = (md5_finish M (foldl (\<lambda>ctx b. md5_update M ctx [b]) (md5_starts M)
                                  (replicate (unat len) 0xFF)), True, snd reads)"
  proof
    assume all: "\<forall>b\<in>set bytes. b = 0xFF"
    with len have "bytes = replicate (unat len) 0xFF" by (rule all_FF_replicate)
    then have "foldl (\<lambda>ctx b. md5_update M ctx [b]) (md5_starts M) bytes =
        foldl (\<lambda>ctx b. md5_update M ctx [b]) (md5_starts M) (replicate (unat len) 0xFF)"
      by (rule arg_cong)
    moreover from all have "(\<forall>b\<in>set bytes. b = 0xFF) = True" by (rule eqTrueI)
    ultimately show "result = (md5_finish M (foldl (\<lambda>ctx b. md5_update M ctx [b]) (md5_starts M)
                                  (replicate (unat len) 0xFF)), True, snd reads)"
      by (simp only: result)
  qed
  have stream: "(\<forall>ctx. md5_update M ctx [] = ctx) \<and>
       (\<forall>ctx xs ys. md5_update M ctx (xs @ ys) = md5_update M (md5_update M ctx xs) ys) \<longrightarrow>
         fst result = md5_finish M (md5_update M (md5_starts M) bytes)"
  proof
    assume streaming: "(\<forall>ctx. md5_update M ctx [] = ctx) \<and>
       (\<forall>ctx xs ys. md5_update M ctx (xs @ ys) = md5_update M (md5_update M ctx xs) ys)"
    have "foldl (\<lambda>ctx b. md5_update M ctx [b]) (md5_starts M) bytes =
        md5_update M (md5_starts M) bytes"
    proof (rule foldl_update_stream)
      fix ctx show "md5_update M ctx [] = ctx"
        using streaming by (elim conjE allE)
    next
      fix ctx xs ys
      show "md5_update M ctx (xs @ ys) = md5_update M (md5_update M ctx xs) ys"
        using streaming by (elim conjE allE)
    qed
    then show "fst result = md5_finish M (md5_update M (md5_starts M) bytes)"
      by (simp only: result fst_conv)
  qed
  have idx: "\<forall>k<unat len. region addr len ! k = addr + of_nat k"
    by (simp add: nth_region)
  have asc: "unat addr + unat len \<le> 2 ^ 32 \<longrightarrow> sorted_wrt (<) (region addr len)"
    by (simp add: region_ascending)
  have lr: "length (region addr len) = unat len" by (rule length_region)
  from result len lr idx asc erased stream show ?thesis
    unfolding Let_def reads_def [symmetric] bytes_def [symmetric] result_def [symmetric]
    by (intro conjI)
qed

theorem readBootloader_md5_whole_region_witness:
  "region 32256 3 = [32256, 32257, 32258] \<and>
   fst (readFlashes erased (region 32256 3) (initial\<lparr>currentSignature := signatures ! 9\<rparr>)) =
     [0xFF, 0xFF, 0xFF] \<and>
   fst (readBootloader_md5 erased keep_bytes 32256 3 (initial\<lparr>currentSignature := signatures ! 9\<rparr>)) =
     [0xFF, 0xFF, 0xFF] \<and>
   fst (snd (readBootloader_md5 erased keep_bytes 32256 3 (initial\<lparr>currentSignature := signatures ! 9\<rparr>)))"
proof -
  let ?s = "initial\<lparr>currentSignature := signatures ! 9\<rparr>"
  have region: "region 32256 3 = [32256, 32257, 32258]"
    by code_simp
  have bytes: "fst (readFlashes erased (region 32256 3) ?s) = [0xFF, 0xFF, 0xFF]"
    by (simp only: region readFlashes_erased fst_conv)
  have "readBootloader_md5 erased keep_bytes 32256 3 ?s =
      (md5_finish keep_bytes (foldl (\<lambda>ctx b. md5_update keep_bytes ctx [b]) (md5_starts keep_bytes)
          (fst (readFlashes erased (region 32256 3) ?s))),
       (\<forall>b\<in>set (fst (readFlashes erased (region 32256 3) ?s)). b = 0xFF),
       snd (readFlashes erased (region 32256 3) ?s))"
    using readBootloader_md5_whole_region [of erased 32256 3 ?s keep_bytes]
    by (simp only: Let_def)
  then have "readBootloader_md5 erased keep_bytes 32256 3 ?s =
      ([0xFF, 0xFF, 0xFF], True, snd (readFlashes erased (region 32256 3) ?s))"
    unfolding bytes by (simp add: keep_bytes_def)
  then have sum: "fst (readBootloader_md5 erased keep_bytes 32256 3 ?s) = [0xFF, 0xFF, 0xFF]"
    and allFF: "fst (snd (readBootloader_md5 erased keep_bytes 32256 3 ?s))"
    by (simp_all only: fst_conv snd_conv)
  from region bytes sum allFF show ?thesis by (intro conjI)
qed

section \<open>The extended address byte\<close>

lemma frames_append:
  "length xs mod 4 = 0 \<Longrightarrow> frames (xs @ ys) = frames xs @ frames ys"
  by (induction xs rule: frames.induct) simp_all

lemma loads_append:
  "length xs mod 4 = 0 \<Longrightarrow> loads (xs @ ys) = loads xs + loads ys"
  by (simp add: loads_def frames_append)

lemma loads_Nil: "loads [] = 0"
  by (simp add: loads_def)

lemma loads_load: "loads [loadExtendedAddressByte, b, c, d] = 1"
  by (simp add: loads_def)

lemma loads_read: "loads [readProgramMemory OR (if P then 0x08 else 0), b, c, d] = 0"
  by (simp add: loads_def command_defs)

lemma issued_readFlash:
  "issued s (snd (readFlash rx addr s)) =
     (if ucast (drop_bit 16 addr AND 0xFF) \<noteq> lastAddressMSB s
      then [loadExtendedAddressByte, 0, ucast (drop_bit 16 addr AND 0xFF), 0] else []) @
     [readProgramMemory OR (if addr AND 1 \<noteq> 0 then 0x08 else 0),
      highByte (drop_bit 1 addr), lowByte (drop_bit 1 addr), 0]"
  by (simp add: readFlash_eq issued_def Let_def)

lemma lastAddressMSB_readFlash:
  "lastAddressMSB (snd (readFlash rx addr s)) = ucast (drop_bit 16 addr AND 0xFF)"
  by (simp add: readFlash_eq Let_def)

lemma sent_readFlash:
  "sent (snd (readFlash rx addr s)) = sent s @ issued s (snd (readFlash rx addr s))"
  by (simp add: readFlash_eq issued_def Let_def)

lemma readFlashes_same_MSB:
  assumes "\<forall>a\<in>set as. ucast (drop_bit 16 a AND 0xFF) = lastAddressMSB s"
  shows "lastAddressMSB (snd (readFlashes rx as s)) = lastAddressMSB s \<and>
         (\<exists>new. sent (snd (readFlashes rx as s)) = sent s @ new \<and>
                length new mod 4 = 0 \<and> loads new = 0)"
  using assms
proof (induction as arbitrary: s)
  case Nil
  have "sent s = sent s @ [] \<and> length ([] :: byte list) mod 4 = 0 \<and> loads [] = 0"
    by (simp add: loads_Nil)
  then have "\<exists>new. sent s = sent s @ new \<and> length new mod 4 = 0 \<and> loads new = 0"
    by (rule exI)
  then show ?case by simp
next
  case (Cons a as)
  define s1 where "s1 = snd (readFlash rx a s)"
  define frame where "frame = [readProgramMemory OR (if a AND 1 \<noteq> 0 then 0x08 else 0),
      highByte (drop_bit 1 a), lowByte (drop_bit 1 a), 0]"
  from Cons.prems have same: "ucast (drop_bit 16 a AND 0xFF) = lastAddressMSB s"
    and rest: "\<forall>a\<in>set as. ucast (drop_bit 16 a AND 0xFF) = lastAddressMSB s"
    by simp_all
  have msb: "lastAddressMSB s1 = lastAddressMSB s"
    unfolding s1_def lastAddressMSB_readFlash by (rule same)
  have "issued s s1 = frame"
    unfolding s1_def frame_def issued_readFlash using same by simp
  then have sent1: "sent s1 = sent s @ frame"
    unfolding s1_def by (simp only: sent_readFlash)
  from rest have "\<forall>a\<in>set as. ucast (drop_bit 16 a AND 0xFF) = lastAddressMSB s1"
    by (simp only: msb)
  from Cons.IH [OF this]
  have last: "lastAddressMSB (snd (readFlashes rx as s1)) = lastAddressMSB s1"
    and ex: "\<exists>new. sent (snd (readFlashes rx as s1)) = sent s1 @ new \<and>
                length new mod 4 = 0 \<and> loads new = 0"
    by (rule conjunct1, rule conjunct2)
  from ex obtain new
    where new1: "sent (snd (readFlashes rx as s1)) = sent s1 @ new"
      and new2: "length new mod 4 = 0" and new3: "loads new = 0"
    by (elim exE conjE)
  have step: "snd (readFlashes rx (a # as) s) = snd (readFlashes rx as s1)"
    by (simp add: split_beta Let_def s1_def)
  have flen: "length frame = 4" by (simp add: frame_def)
  then have "length frame mod 4 = 0" by simp
  then have "loads (frame @ new) = loads frame + loads new" by (rule loads_append)
  moreover have "loads frame = 0" unfolding frame_def by (rule loads_read)
  ultimately have loads: "loads (frame @ new) = 0" using new3 by simp
  have len: "length (frame @ new) mod 4 = 0" using flen new2 by simp
  have sent: "sent (snd (readFlashes rx (a # as) s)) = sent s @ (frame @ new)"
    by (simp only: step new1 sent1 append_assoc)
  have "lastAddressMSB (snd (readFlashes rx (a # as) s)) = lastAddressMSB s"
    by (simp only: step last msb)
  moreover from sent len loads
  have "\<exists>new. sent (snd (readFlashes rx (a # as) s)) = sent s @ new \<and>
           length new mod 4 = 0 \<and> loads new = 0"
    by (intro exI [of _ "frame @ new"] conjI)
  ultimately show ?case by (rule conjI)
qed

lemma low_address_MSB:
  assumes "n < 65536"
  shows "(ucast (drop_bit 16 (of_nat n :: 32 word) AND 0xFF) :: byte) = 0"
proof -
  from assms have "unat (of_nat n :: 32 word) = n" by (simp add: unat_of_nat)
  then have "unat (drop_bit 16 (of_nat n :: 32 word)) = drop_bit 16 n"
    by (simp add: unat_drop_bit_eq)
  also from assms have "drop_bit 16 n = 0" by (simp add: drop_bit_eq_div)
  finally have "drop_bit 16 (of_nat n :: 32 word) = 0" by (simp add: unat_eq_0)
  then show ?thesis by simp
qed

lemma lastAddressMSB_initial: "lastAddressMSB initial = 0"
  by (simp add: initial_def)

lemma first_64K_no_load:
  "lastAddressMSB (snd (readFlashes rx (map of_nat [0..<65536]) initial)) = 0 \<and>
   (\<exists>new. sent (snd (readFlashes rx (map of_nat [0..<65536]) initial)) = new \<and>
          length new mod 4 = 0 \<and> loads new = 0)"
proof -
  have "\<forall>a\<in>set (map of_nat [0..<65536] :: 32 word list).
          ucast (drop_bit 16 a AND 0xFF) = lastAddressMSB initial"
  proof
    fix a :: "32 word"
    assume "a \<in> set (map of_nat [0..<65536])"
    then obtain n :: nat where "n < 65536" and "a = of_nat n"
      by (auto simp only: set_map set_upt image_iff atLeastLessThan_iff)
    then show "ucast (drop_bit 16 a AND 0xFF) = lastAddressMSB initial"
      by (simp only: lastAddressMSB_initial low_address_MSB)
  qed
  from readFlashes_same_MSB [OF this, of rx] show ?thesis
    by (simp only: lastAddressMSB_initial sent_initial append_Nil simp_thms ex_simps)
qed

lemma issued_initial: "issued initial s = sent s"
  by (simp add: issued_def sent_initial)

lemma loads_issued_readFlash:
  "loads (issued s (snd (readFlash rx addr s))) =
     (if ucast (drop_bit 16 addr AND 0xFF) \<noteq> lastAddressMSB s then 1 else 0)"
proof (cases "ucast (drop_bit 16 addr AND 0xFF) \<noteq> lastAddressMSB s")
  case True
  have "loads ([loadExtendedAddressByte, 0, ucast (drop_bit 16 addr AND 0xFF), 0] @
          [readProgramMemory OR (if addr AND 1 \<noteq> 0 then 0x08 else 0),
           highByte (drop_bit 1 addr), lowByte (drop_bit 1 addr), 0]) =
        loads [loadExtendedAddressByte, 0, ucast (drop_bit 16 addr AND 0xFF), 0] +
        loads [readProgramMemory OR (if addr AND 1 \<noteq> 0 then 0x08 else 0),
           highByte (drop_bit 1 addr), lowByte (drop_bit 1 addr), 0]"
    by (rule loads_append) simp
  then show ?thesis using True
    by (simp only: issued_readFlash loads_load loads_read if_True simp_thms)
next
  case False
  then show ?thesis
    by (simp only: issued_readFlash loads_read if_False append_Nil)
qed

lemma MSB_64K: "(ucast (drop_bit 16 (0x10000 :: 32 word) AND 0xFF) :: byte) = 1"
  by simp

lemma after_64K:
  fixes rx :: target
  defines "s1 \<equiv> snd (readFlashes rx (map of_nat [0..<65536]) initial)"
  defines "s2 \<equiv> snd (readFlash rx 0x10000 s1)"
  shows "loads (issued initial s1) = 0" and "loads (issued s1 s2) = 1"
    and "loads (issued initial s2) = 1"
proof -
  from first_64K_no_load [of rx]
  have last: "lastAddressMSB s1 = 0"
    and ex: "\<exists>new. sent s1 = new \<and> length new mod 4 = 0 \<and> loads new = 0"
    unfolding s1_def by (rule conjunct1, rule conjunct2)
  from ex have len: "length (sent s1) mod 4 = 0" and none: "loads (sent s1) = 0"
    by (elim exE conjE, simp)+
  from none show first: "loads (issued initial s1) = 0"
    by (simp only: issued_initial)
  have "loads (issued s1 s2) = (if (1 :: byte) \<noteq> lastAddressMSB s1 then 1 else 0)"
    unfolding s2_def by (simp only: loads_issued_readFlash MSB_64K)
  with last show second: "loads (issued s1 s2) = 1" by simp
  have "sent s2 = sent s1 @ issued s1 s2"
    unfolding s2_def by (rule sent_readFlash)
  then have "loads (issued initial s2) = loads (sent s1 @ issued s1 s2)"
    by (simp only: issued_initial)
  also from len have "\<dots> = loads (sent s1) + loads (issued s1 s2)" by (rule loads_append)
  also from none second have "\<dots> = 1" by simp
  finally show "loads (issued initial s2) = 1" .
qed

text \<open>
  C1, as the code has it. \<open>readFlash\<close> sends a load-extended-address instruction,
  before the read instruction, exactly when the byte made of bits 16 to 23 of the
  address differs from \<open>lastAddressMSB\<close>, and then remembers the new byte. The cache
  starts at 0, not at an unknown value: the reads of the addresses \<open>0x0000\<close> to
  \<open>0xFFFF\<close> in ascending order, from the initial state, send no such instruction, and
  the read of \<open>0x10000\<close> that follows sends the first one.
\<close>

theorem readFlash_extended_address:
  "(let MSB = (ucast (drop_bit 16 addr AND 0xFF) :: byte); s' = snd (readFlash rx addr s)
    in issued s s' =
         (if MSB \<noteq> lastAddressMSB s then [loadExtendedAddressByte, 0, MSB, 0] else []) @
         [readProgramMemory OR (if addr AND 1 \<noteq> 0 then 0x08 else 0),
          highByte (drop_bit 1 addr), lowByte (drop_bit 1 addr), 0] \<and>
       loads (issued s s') = (if MSB \<noteq> lastAddressMSB s then 1 else 0) \<and>
       lastAddressMSB s' = MSB) \<and>
   (let s1 = snd (readFlashes rx (map of_nat [0..<65536]) initial);
        s2 = snd (readFlash rx 0x10000 s1)
    in lastAddressMSB initial = 0 \<and> loads (issued initial s1) = 0 \<and>
       loads (issued s1 s2) = 1 \<and> loads (issued initial s2) = 1)"
  unfolding Let_def
  using issued_readFlash [of s rx addr] loads_issued_readFlash [of s rx addr]
    lastAddressMSB_readFlash [of rx addr s] lastAddressMSB_initial after_64K [of rx]
  by (intro conjI)

theorem readFlash_extended_address_witness:
  "loads (issued initial (snd (readFlash erased 0x10000 initial))) = 1 \<and>
   lastAddressMSB (snd (readFlash erased 0x10000 initial)) = 1 \<and>
   loads (issued initial (snd (readFlash erased 0x0000 initial))) = 0 \<and>
   loads (issued initial (snd (readFlashes erased (map of_nat [0..<65536]) initial))) = 0"
proof -
  note one = readFlash_extended_address [where addr = "0x10000" and s = initial and rx = erased, unfolded Let_def, THEN conjunct1]
  note zero = readFlash_extended_address [where addr = 0 and s = initial and rx = erased, unfolded Let_def, THEN conjunct1]
  note run = readFlash_extended_address [where addr = 0 and s = initial and rx = erased, unfolded Let_def, THEN conjunct2]
  from one [THEN conjunct2, THEN conjunct1]
  have "loads (issued initial (snd (readFlash erased 0x10000 initial))) = 1"
    by (simp add: lastAddressMSB_initial)
  moreover from one [THEN conjunct2, THEN conjunct2]
  have "lastAddressMSB (snd (readFlash erased 0x10000 initial)) = 1"
    by simp
  moreover from zero [THEN conjunct2, THEN conjunct1]
  have "loads (issued initial (snd (readFlash erased 0x0000 initial))) = 0"
    by (simp add: lastAddressMSB_initial)
  moreover from run
  have "loads (issued initial (snd (readFlashes erased (map of_nat [0..<65536]) initial))) = 0"
    by (elim conjE)
  ultimately show ?thesis by (intro conjI)
qed

text \<open>
  The same run against the count of one instruction for the addresses \<open>0x0000\<close> to
  \<open>0xFFFF\<close>: there is none.
\<close>

theorem first_64K_one_load_counterexample:
  "loads (issued initial (snd (readFlashes erased (map of_nat [0..<65536]) initial))) \<noteq> 1"
  using after_64K(1) [of erased] by (simp only:)

end
